theory Spec2Isabelle
  imports Complex_Main "HOL-Library.Log_Nat" "HOL-Library.AList"
begin

section \<open>JavaScript numbers and typed arrays\<close>

text \<open>
  A JavaScript number is an IEEE 754 double. Every finite double is a rational number, so
  the finite numbers are modelled as \<open>Fin q\<close> with \<open>q\<close> rational; the three remaining
  values are the two infinities and NaN. Negative zero is identified with zero (JavaScript's
  \<open>===\<close> does not tell them apart). Equality of HOL terms is sameness of value; in
  particular \<open>NaN = NaN\<close> here, where JavaScript's \<open>===\<close> answers false.
\<close>

datatype jsnum = Fin rat | PInf | NInf | NaN

text \<open>\<open>ilog2 x\<close> is the binary exponent of a positive rational: \<open>2 ^ ilog2 x \<le> x < 2 ^ (ilog2 x + 1)\<close>.\<close>

definition ilog2 :: "rat \<Rightarrow> int" where
  "ilog2 x = (if 1 \<le> x then bitlen \<lfloor>x\<rfloor> - 1 else - bitlen (\<lceil>1 / x\<rceil> - 1))"

definition round_half_even :: "rat \<Rightarrow> int" where
  "round_half_even q =
     (let f = \<lfloor>q\<rfloor>; r = q - of_int f
      in if r < 1 / 2 then f
         else if 1 / 2 < r then f + 1
         else if even f then f else f + 1)"

text \<open>
  Rounding to the nearest value of a binary floating-point format with \<open>p\<close> significant
  bits and exponent range \<open>emin .. emax\<close>, ties to even: the value is rounded on the grid
  of its binade (the subnormal grid below \<open>2 ^ emin\<close>) and overflows to an infinity when the
  rounded magnitude reaches \<open>2 ^ (emax + 1)\<close>.
\<close>

definition round_binary :: "nat \<Rightarrow> int \<Rightarrow> int \<Rightarrow> rat \<Rightarrow> jsnum" where
  "round_binary p emin emax x =
     (if x = 0 then Fin 0
      else let e = max (ilog2 \<bar>x\<bar>) emin;
               u = 2 powi (e - (int p - 1));
               y = of_int (round_half_even (x / u)) * u
           in if 2 powi (emax + 1) \<le> \<bar>y\<bar> then (if 0 < x then PInf else NInf)
              else Fin y)"

text \<open>\<open>Math.fround\<close>: the conversion a \<open>Float32Array\<close> applies to every number stored in it.\<close>

definition fround :: "jsnum \<Rightarrow> jsnum" where
  "fround v = (case v of Fin x \<Rightarrow> round_binary 24 (- 126) 127 x | _ \<Rightarrow> v)"

text \<open>The rounding of the result of a double-precision operation.\<close>

definition dround :: "rat \<Rightarrow> jsnum" where
  "dround x = round_binary 53 (- 1022) 1023 x"

definition js_sign :: "jsnum \<Rightarrow> int" where
  "js_sign v = (case v of Fin x \<Rightarrow> (if 0 < x then 1 else if x < 0 then - 1 else 0)
                | PInf \<Rightarrow> 1 | NInf \<Rightarrow> - 1 | NaN \<Rightarrow> 0)"

text \<open>The operators \<open>*\<close> and \<open>-\<close> of JavaScript on numbers.\<close>

definition js_mul :: "jsnum \<Rightarrow> jsnum \<Rightarrow> jsnum" where
  "js_mul a b =
     (if a = NaN \<or> b = NaN then NaN
      else case (a, b) of
          (Fin x, Fin y) \<Rightarrow> dround (x * y)
        | _ \<Rightarrow> (let s = js_sign a * js_sign b
                in if s = 0 then NaN else if 0 < s then PInf else NInf))"

definition js_sub :: "jsnum \<Rightarrow> jsnum \<Rightarrow> jsnum" where
  "js_sub a b =
     (case (a, b) of
        (NaN, _) \<Rightarrow> NaN
      | (_, NaN) \<Rightarrow> NaN
      | (Fin x, Fin y) \<Rightarrow> dround (x - y)
      | (PInf, PInf) \<Rightarrow> NaN
      | (NInf, NInf) \<Rightarrow> NaN
      | (PInf, _) \<Rightarrow> PInf
      | (NInf, _) \<Rightarrow> NInf
      | (Fin x, PInf) \<Rightarrow> NInf
      | (Fin x, NInf) \<Rightarrow> PInf)"

text \<open>
  Reading index \<open>i\<close> of an array of numbers. Past the end JavaScript yields \<open>undefined\<close>;
  every use of such a read in this program is numeric (an arithmetic operand or a store into
  a \<open>Float32Array\<close>), where \<open>undefined\<close> converts to NaN.
\<close>

definition js_at :: "jsnum list \<Rightarrow> nat \<Rightarrow> jsnum" where
  "js_at xs i = (if i < length xs then xs ! i else NaN)"

text \<open>\<open>new Float32Array(n)\<close> holds \<open>n\<close> zeros; a store rounds to single precision, and a
  store past the end is ignored.\<close>

definition Float32Array :: "nat \<Rightarrow> jsnum list" where
  "Float32Array n = replicate n (Fin 0)"

definition f32_set :: "jsnum list \<Rightarrow> nat \<Rightarrow> jsnum \<Rightarrow> jsnum list" where
  "f32_set xs i v = (if i < length xs then xs[i := fround v] else xs)"

section \<open>The modules that listener.js and songbird.js require\<close>

text \<open>
  The constants and the helper that the two files take from \<open>utils.js\<close>, \<open>encoder.js\<close>,
  \<open>early-reflections.js\<close> and \<open>room.js\<close>. Those files are not part of the sources at hand,
  so their exports are a parameter of every function that reads them.
\<close>

record env =
  DEFAULT_AMBISONIC_ORDER :: jsnum
  DEFAULT_POSITION :: "jsnum list"
  DEFAULT_FORWARD :: "jsnum list"
  DEFAULT_UP :: "jsnum list"
  DEFAULT_SPEED_OF_SOUND :: jsnum
  DEFAULT_DIMENSIONS :: "(string \<times> jsnum) list"
  DEFAULT_MATERIALS :: "(string \<times> string) list"
  crossProduct :: "jsnum list \<Rightarrow> jsnum list \<Rightarrow> jsnum list"

text \<open>
  The identifiers bound in each file: its \<open>require\<close> declarations and its own constructor.
  The program defines no global variable, so an identifier that a file does not bind is bound
  nowhere, and evaluating it throws a ReferenceError.
\<close>

datatype error = ReferenceError string | TypeError string

definition listener_js :: "string list" where
  "listener_js = [''Omnitone'', ''Utils'', ''Listener'']"

definition songbird_js :: "string list" where
  "songbird_js = [''Listener'', ''Source'', ''Room'', ''EarlyReflections'', ''Encoder'',
                  ''Utils'', ''Songbird'']"

definition resolve :: "string list \<Rightarrow> string \<Rightarrow> error + unit" where
  "resolve scope name = (if name \<in> set scope then Inr () else Inl (ReferenceError name))"

text \<open>
  The statement \<open>if (options.f == undefined) { options.f = M.D; }\<close> of a file with the
  given scope: the new value of the field. The default \<open>M.D\<close> is evaluated, and \<open>M\<close> looked
  up, only when the field is undefined (or null).
\<close>

definition default_from :: "string list \<Rightarrow> string \<Rightarrow> 'a \<Rightarrow> 'a option \<Rightarrow> error + 'a option" where
  "default_from scope M D field =
     (if field = None
      then (case resolve scope M of Inl e \<Rightarrow> Inl e | Inr _ \<Rightarrow> Inr (Some D))
      else Inr field)"

text \<open>\<open>Object.assign(target, source)\<close> on objects held as association lists.\<close>

definition Object_assign :: "('k \<times> 'v) list \<Rightarrow> ('k \<times> 'v) list \<Rightarrow> ('k \<times> 'v) list" where
  "Object_assign target source = fold (\<lambda>(k, v) t. AList.update k v t) source target"

section \<open>The effects of the program\<close>

text \<open>
  Calls into the collaborators (the Omnitone renderer, the audio context, the room and the
  sources) and stores into the listener's public \<open>position\<close> array are recorded, in program
  order, in a trace. \<open>SetRotationMatrix\<close> carries the contents of the buffer handed to the
  renderer at the moment of the call; \<open>PositionStore i v\<close> carries the value the array holds
  at index \<open>i\<close> after the store.
\<close>

datatype node = ListenerInput | ListenerAmbisonicOutput | ListenerOutput
  | SongbirdOutput | SongbirdAmbisonicOutput | RoomOutput

record room_options =
  room_listenerPosition :: "jsnum list option"
  room_dimensions :: "(string \<times> jsnum) list option"
  room_materials :: "(string \<times> string) list option"
  room_speedOfSound :: "jsnum option"

datatype 'o event =
    CreateHOARenderer "jsnum option" "string list"
  | RendererInitialize
  | CreateGain node
  | Connect node node
  | SetRotationMatrix "jsnum list"
  | PositionStore nat jsnum
  | NewRoom room_options
  | RoomSetProperties "(string \<times> jsnum) list option" "(string \<times> string) list option"
  | RoomSetListenerPosition jsnum jsnum jsnum
  | NewSource nat 'o
  | SourceUpdate nat

text \<open>
  The options object of the \<open>Songbird\<close> constructor. A field is \<open>None\<close> when it is
  \<open>undefined\<close> or \<open>null\<close>, the two values for which \<open>== undefined\<close> holds.
\<close>

record songbird_options =
  ambisonicOrder :: "jsnum option"
  listenerPosition :: "jsnum list option"
  listenerForward :: "jsnum list option"
  listenerUp :: "jsnum list option"
  dimensions :: "(string \<times> jsnum) list option"
  materials :: "(string \<times> string) list option"
  speedOfSound :: "jsnum option"

text \<open>\<open>new Object()\<close>, seen as an options object: every field is undefined.\<close>

definition new_Object :: songbird_options where
  "new_Object = \<lparr>ambisonicOrder = None, listenerPosition = None, listenerForward = None,
                 listenerUp = None, dimensions = None, materials = None, speedOfSound = None\<rparr>"

text \<open>
  The world outside the objects of this program: the trace, the next free object identity,
  and the heap of the callers' options objects, addressed by reference.
\<close>

record 'o world =
  trace :: "'o event list"
  next_ref :: nat
  heap :: "nat \<Rightarrow> songbird_options"

definition emit :: "'o event \<Rightarrow> 'o world \<Rightarrow> 'o world" where
  "emit e w = w\<lparr>trace := trace w @ [e]\<rparr>"

section \<open>listener.js\<close>

text \<open>
  The options object of the \<open>Listener\<close> constructor, and the members of a \<open>Listener\<close> that
  are data: \<open>position\<close> and \<open>_tempMatrix4\<close>. The other members (\<open>_context\<close>,
  \<open>_renderer\<close> and the three gain nodes) are written once by the constructor and are seen
  in the trace.
\<close>

record listener_options =
  opt_ambisonicOrder :: "jsnum option"
  opt_position :: "jsnum list option"
  opt_forward :: "jsnum list option"
  opt_up :: "jsnum list option"

record listener =
  position :: "jsnum list"
  tempMatrix4 :: "jsnum list"

text \<open>\<open>Listener.prototype.setOrientation\<close>.\<close>

definition setOrientation ::
  "env \<Rightarrow> jsnum \<Rightarrow> jsnum \<Rightarrow> jsnum \<Rightarrow> jsnum \<Rightarrow> jsnum \<Rightarrow> jsnum \<Rightarrow> listener \<times> 'o world
     \<Rightarrow> listener \<times> 'o world" where
  "setOrientation U forward_x forward_y forward_z up_x up_y up_z = (\<lambda>(this, w).
     let right = crossProduct U [forward_x, forward_y, forward_z] [up_x, up_y, up_z];
         m = tempMatrix4 this;
         m = f32_set m 0 (js_at right 0);
         m = f32_set m 1 (js_at right 1);
         m = f32_set m 2 (js_at right 2);
         m = f32_set m 3 up_x;
         m = f32_set m 4 up_y;
         m = f32_set m 5 up_z;
         m = f32_set m 6 forward_x;
         m = f32_set m 7 forward_y;
         m = f32_set m 8 forward_z
     in (this\<lparr>tempMatrix4 := m\<rparr>, emit (SetRotationMatrix m) w))"

text \<open>A Three.js \<open>Matrix4\<close>: the only member read is \<open>elements\<close>.\<close>

record matrix4 =
  elements :: "jsnum list"

text \<open>\<open>this.position[i] = v\<close>.\<close>

definition store_position :: "nat \<Rightarrow> jsnum \<Rightarrow> listener \<times> 'o world \<Rightarrow> listener \<times> 'o world" where
  "store_position i v = (\<lambda>(this, w).
     let p = f32_set (position this) i v
     in (this\<lparr>position := p\<rparr>, emit (PositionStore i (js_at p i)) w))"

text \<open>\<open>Listener.prototype.setFromMatrix\<close>.\<close>

definition setFromMatrix :: "matrix4 \<Rightarrow> listener \<times> 'o world \<Rightarrow> listener \<times> 'o world" where
  "setFromMatrix matrix4 = (\<lambda>(this, w).
     let m = tempMatrix4 this;
         m = f32_set m 0 (js_at (elements matrix4) 0);
         m = f32_set m 1 (js_at (elements matrix4) 1);
         m = f32_set m 2 (js_at (elements matrix4) 2);
         m = f32_set m 3 (js_at (elements matrix4) 4);
         m = f32_set m 4 (js_at (elements matrix4) 5);
         m = f32_set m 5 (js_at (elements matrix4) 6);
         m = f32_set m 6 (js_at (elements matrix4) 8);
         m = f32_set m 7 (js_at (elements matrix4) 9);
         m = f32_set m 8 (js_at (elements matrix4) 10);
         s = (this\<lparr>tempMatrix4 := m\<rparr>, emit (SetRotationMatrix m) w);
         s = store_position 0 (js_at (elements matrix4) 12) s;
         s = store_position 1 (js_at (elements matrix4) 13) s;
         s = store_position 2 (js_at (elements matrix4) 14) s
     in s)"

text \<open>The HRIR files the constructor selects for an ambisonic order (\<open>== 1\<close>, \<open>== 2\<close>, \<open>== 3\<close>
  on a number; the last branch holds only a TODO comment).\<close>

definition HRIR_urls :: "jsnum option \<Rightarrow> string list" where
  "HRIR_urls order =
     (if order = Some (Fin 1) then
        [''https://cdn.rawgit.com/google/songbird/master/build/resources/foa-1-2.wav'',
         ''https://cdn.rawgit.com/google/songbird/master/build/resources/foa-3-4.wav'']
      else if order = Some (Fin 2) then
        [''https://cdn.rawgit.com/google/songbird/master/build/resources/soa-1-2.wav'',
         ''https://cdn.rawgit.com/google/songbird/master/build/resources/soa-3-4.wav'',
         ''https://cdn.rawgit.com/google/songbird/master/build/resources/soa-5-6.wav'',
         ''https://cdn.rawgit.com/google/songbird/master/build/resources/soa-7-8.wav'',
         ''https://cdn.rawgit.com/google/songbird/master/build/resources/soa-9.wav'']
      else if order = Some (Fin 3) then
        [''https://cdn.rawgit.com/google/songbird/master/build/resources/toa-1-2.wav'',
         ''https://cdn.rawgit.com/google/songbird/master/build/resources/toa-3-4.wav'',
         ''https://cdn.rawgit.com/google/songbird/master/build/resources/toa-5-6.wav'',
         ''https://cdn.rawgit.com/google/songbird/master/build/resources/toa-7-8.wav'',
         ''https://cdn.rawgit.com/google/songbird/master/build/resources/toa-9-10.wav'',
         ''https://cdn.rawgit.com/google/songbird/master/build/resources/toa-11-12.wav'',
         ''https://cdn.rawgit.com/google/songbird/master/build/resources/toa-13-14.wav'',
         ''https://cdn.rawgit.com/google/songbird/master/build/resources/toa-15-16.wav'']
      else [''''])"

text \<open>
  The first part of the \<open>Listener\<close> constructor: defaults for undefined arguments, written
  into the options object. The default of \<open>ambisonicOrder\<close> is the expression
  \<open>Encoder.DEFAULT_AMBISONIC_ORDER\<close>; the other three are read from \<open>Utils\<close>.
\<close>

definition Listener_defaults :: "env \<Rightarrow> listener_options option \<Rightarrow> error + listener_options" where
  "Listener_defaults U options =
     (let options = (case options of
                       None \<Rightarrow> \<lparr>opt_ambisonicOrder = None, opt_position = None,
                                opt_forward = None, opt_up = None\<rparr>
                     | Some obj \<Rightarrow> obj)
      in case default_from listener_js ''Encoder'' (DEFAULT_AMBISONIC_ORDER U)
                (opt_ambisonicOrder options) of
        Inl e \<Rightarrow> Inl e
      | Inr v \<Rightarrow>
      let options = options\<lparr>opt_ambisonicOrder := v\<rparr>
      in case default_from listener_js ''Utils'' (DEFAULT_POSITION U) (opt_position options) of
        Inl e \<Rightarrow> Inl e
      | Inr v \<Rightarrow>
      let options = options\<lparr>opt_position := v\<rparr>
      in case default_from listener_js ''Utils'' (DEFAULT_FORWARD U) (opt_forward options) of
        Inl e \<Rightarrow> Inl e
      | Inr v \<Rightarrow>
      let options = options\<lparr>opt_forward := v\<rparr>
      in case default_from listener_js ''Utils'' (DEFAULT_UP U) (opt_up options) of
        Inl e \<Rightarrow> Inl e
      | Inr v \<Rightarrow> Inr (options\<lparr>opt_up := v\<rparr>))"

text \<open>
  The \<open>Listener\<close> constructor. It returns the new listener together with the options
  object as the constructor leaves it. \<open>options.position\<close> is given its default and then
  never read: \<open>this.position\<close> is a fresh \<open>Float32Array(3)\<close>. The continuation passed to
  \<open>initialize().then\<close> runs after the constructor has returned and is not part of it.
\<close>

definition Listener ::
  "env \<Rightarrow> listener_options option \<Rightarrow> 'o world
     \<Rightarrow> (error + listener \<times> listener_options) \<times> 'o world" where
  "Listener U options w =
     (case Listener_defaults U options of
        Inl e \<Rightarrow> (Inl e, w)
      | Inr options \<Rightarrow>
          let this = \<lparr>position = Float32Array 3, tempMatrix4 = Float32Array 16\<rparr>;
              urls = HRIR_urls (opt_ambisonicOrder options);
              w = emit (CreateHOARenderer (opt_ambisonicOrder options) urls) w;
              w = emit (CreateGain ListenerInput) w;
              w = emit (CreateGain ListenerAmbisonicOutput) w;
              w = emit (CreateGain ListenerOutput) w;
              w = emit RendererInitialize w
          in case (opt_forward options, opt_up options) of
               (Some forward, Some up) \<Rightarrow>
                 let (this, w) = setOrientation U
                                   (js_at forward 0) (js_at forward 1) (js_at forward 2)
                                   (js_at up 0) (js_at up 1) (js_at up 2) (this, w)
                 in (Inr (this, options), w)
             | (None, _) \<Rightarrow> (Inl (TypeError ''options.forward''), w)
             | (_, None) \<Rightarrow> (Inl (TypeError ''options.up''), w))"

section \<open>songbird.js\<close>

text \<open>
  A source is known by its identity and the options it was made from. The members of a
  \<open>Songbird\<close> that are data are \<open>_ambisonicOrder\<close>, \<open>_sources\<close> and \<open>_listener\<close>; the room
  and the two gain nodes are seen in the trace.
\<close>

record 'o source =
  source_ref :: nat
  source_options :: 'o

record 'o songbird =
  sb_ambisonicOrder :: "jsnum option"
  sb_sources :: "'o source list"
  sb_listener :: listener

text \<open>
  The first part of the \<open>Songbird\<close> constructor: defaults for undefined arguments, written
  into the options object (a fresh one when the argument is undefined).
\<close>

definition Songbird_defaults :: "env \<Rightarrow> songbird_options option \<Rightarrow> error + songbird_options" where
  "Songbird_defaults U options =
     (let options = (case options of None \<Rightarrow> new_Object | Some obj \<Rightarrow> obj)
      in case default_from songbird_js ''Encoder'' (DEFAULT_AMBISONIC_ORDER U)
                (ambisonicOrder options) of
        Inl e \<Rightarrow> Inl e
      | Inr v \<Rightarrow>
      let options = options\<lparr>ambisonicOrder := v\<rparr>
      in case default_from songbird_js ''Utils'' (DEFAULT_POSITION U) (listenerPosition options) of
        Inl e \<Rightarrow> Inl e
      | Inr v \<Rightarrow>
      let options = options\<lparr>listenerPosition := v\<rparr>
      in case default_from songbird_js ''Utils'' (DEFAULT_FORWARD U) (listenerForward options) of
        Inl e \<Rightarrow> Inl e
      | Inr v \<Rightarrow>
      let options = options\<lparr>listenerForward := v\<rparr>
      in case default_from songbird_js ''Utils'' (DEFAULT_UP U) (listenerUp options) of
        Inl e \<Rightarrow> Inl e
      | Inr v \<Rightarrow>
      let options = options\<lparr>listenerUp := v\<rparr>
      in case default_from songbird_js ''EarlyReflections''
                (Object_assign [] (DEFAULT_DIMENSIONS U)) (dimensions options) of
        Inl e \<Rightarrow> Inl e
      | Inr v \<Rightarrow>
      let options = options\<lparr>dimensions := v\<rparr>
      in case default_from songbird_js ''Room''
                (Object_assign [] (DEFAULT_MATERIALS U)) (materials options) of
        Inl e \<Rightarrow> Inl e
      | Inr v \<Rightarrow>
      let options = options\<lparr>materials := v\<rparr>
      in case default_from songbird_js ''Utils'' (DEFAULT_SPEED_OF_SOUND U) (speedOfSound options) of
        Inl e \<Rightarrow> Inl e
      | Inr v \<Rightarrow> Inr (options\<lparr>speedOfSound := v\<rparr>))"

text \<open>
  The \<open>Songbird\<close> constructor. Its \<open>options\<close> argument is \<open>None\<close> (undefined) or a reference
  to the caller's object in the heap, which the constructor updates in place. \<open>room.js\<close> is
  not among the sources: the construction of the room is recorded with the options it is given.
\<close>

definition Songbird ::
  "env \<Rightarrow> nat option \<Rightarrow> 'o world \<Rightarrow> (error + 'o songbird) \<times> 'o world" where
  "Songbird U options w =
     (case Songbird_defaults U (map_option (heap w) options) of
        Inl e \<Rightarrow> (Inl e, w)
      | Inr obj \<Rightarrow>
          let w = (case options of None \<Rightarrow> w | Some r \<Rightarrow> w\<lparr>heap := (heap w)(r := obj)\<rparr>);
              w = emit (NewRoom \<lparr>room_listenerPosition = listenerPosition obj,
                                 room_dimensions = dimensions obj,
                                 room_materials = materials obj,
                                 room_speedOfSound = speedOfSound obj\<rparr>) w
          in case Listener U (Some \<lparr>opt_ambisonicOrder = ambisonicOrder obj,
                                     opt_position = listenerPosition obj,
                                     opt_forward = listenerForward obj,
                                     opt_up = listenerUp obj\<rparr>) w of
               (Inl e, w) \<Rightarrow> (Inl e, w)
             | (Inr (l, _), w) \<Rightarrow>
                 let w = emit (CreateGain SongbirdOutput) w;
                     w = emit (CreateGain SongbirdAmbisonicOutput) w;
                     w = emit (Connect RoomOutput ListenerInput) w;
                     w = emit (Connect ListenerOutput SongbirdOutput) w;
                     w = emit (Connect ListenerAmbisonicOutput SongbirdAmbisonicOutput) w
                 in (Inr \<lparr>sb_ambisonicOrder = ambisonicOrder obj, sb_sources = [],
                          sb_listener = l\<rparr>, w))"

text \<open>
  Modelled from the spec: the \<open>Source\<close> constructor (\<open>source.js\<close> is not among the sources).
  The spec says that \<open>createSource\<close> "constructs a Source bound to this Scene": the new
  source is a new object, with an identity no earlier object has, made from the options.
\<close>

definition new_Source :: "'o songbird \<Rightarrow> 'o \<Rightarrow> 'o world \<Rightarrow> 'o source \<times> 'o world" where
  "new_Source scene options w =
     (\<lparr>source_ref = next_ref w, source_options = options\<rparr>,
      emit (NewSource (next_ref w) options) (w\<lparr>next_ref := Suc (next_ref w)\<rparr>))"

text \<open>\<open>Songbird.prototype.createSource\<close>. The store at index \<open>this._sources.length\<close>
  extends the array by one element.\<close>

definition createSource ::
  "'o \<Rightarrow> 'o songbird \<times> 'o world \<Rightarrow> 'o source \<times> 'o songbird \<times> 'o world" where
  "createSource options = (\<lambda>(this, w).
     let (source, w) = new_Source this options w;
         this = this\<lparr>sb_sources := sb_sources this @ [source]\<rparr>
     in (source, this, w))"

text \<open>\<open>Songbird.prototype.setRoomProperties\<close>.\<close>

definition setRoomProperties ::
  "(string \<times> jsnum) list option \<Rightarrow> (string \<times> string) list option
     \<Rightarrow> 'o songbird \<times> 'o world \<Rightarrow> 'o songbird \<times> 'o world" where
  "setRoomProperties dims mats = (\<lambda>(this, w). (this, emit (RoomSetProperties dims mats) w))"

text \<open>
  \<open>Songbird.prototype.setListenerPosition\<close>. \<open>source.js\<close> is not among the sources: each
  call of \<open>element._update()\<close> is recorded with the identity of the source.
\<close>

definition setListenerPosition ::
  "jsnum \<Rightarrow> jsnum \<Rightarrow> jsnum \<Rightarrow> 'o songbird \<times> 'o world \<Rightarrow> 'o songbird \<times> 'o world" where
  "setListenerPosition x y z = (\<lambda>(this, w).
     let s = (sb_listener this, w);
         s = store_position 0 x s;
         s = store_position 1 y s;
         s = store_position 2 z s;
         (l, w) = s;
         w = emit (RoomSetListenerPosition x y z) w;
         w = fold (\<lambda>element. emit (SourceUpdate (source_ref element))) (sb_sources this) w
     in (this\<lparr>sb_listener := l\<rparr>, w))"

text \<open>\<open>Songbird.prototype.setListenerOrientation\<close>.\<close>

definition setListenerOrientation ::
  "env \<Rightarrow> jsnum \<Rightarrow> jsnum \<Rightarrow> jsnum \<Rightarrow> jsnum \<Rightarrow> jsnum \<Rightarrow> jsnum
     \<Rightarrow> 'o songbird \<times> 'o world \<Rightarrow> 'o songbird \<times> 'o world" where
  "setListenerOrientation U forward_x forward_y forward_z up_x up_y up_z = (\<lambda>(this, w).
     let (l, w) = setOrientation U forward_x forward_y forward_z up_x up_y up_z
                    (sb_listener this, w)
     in (this\<lparr>sb_listener := l\<rparr>, w))"

text \<open>\<open>Songbird.prototype.setListenerFromMatrix\<close>.\<close>

definition setListenerFromMatrix ::
  "matrix4 \<Rightarrow> 'o songbird \<times> 'o world \<Rightarrow> 'o songbird \<times> 'o world" where
  "setListenerFromMatrix matrix = (\<lambda>(this, w).
     let (l, w) = setFromMatrix matrix (sb_listener this, w);
         this = this\<lparr>sb_listener := l\<rparr>
     in setListenerPosition (js_at (position (sb_listener this)) 0)
          (js_at (position (sb_listener this)) 1) (js_at (position (sb_listener this)) 2)
          (this, w))"

section \<open>What the spec says of the modules that are not among the sources\<close>

text \<open>
  Modelled from the spec: \<open>Utils.crossProduct\<close> (\<open>utils.js\<close> is not among the sources). The
  spec: "Coordinate convention: right-handed, meters; forward/up supplied as unit vectors;
  right = forward \<times> up", with VectorMath's "cross product" a pure function. This is the cross
  product of two 3-element arrays, computed with JavaScript's \<open>*\<close> and \<open>-\<close>.
\<close>

definition crossProduct_spec :: "jsnum list \<Rightarrow> jsnum list \<Rightarrow> jsnum list" where
  "crossProduct_spec a b =
     [js_sub (js_mul (js_at a 1) (js_at b 2)) (js_mul (js_at a 2) (js_at b 1)),
      js_sub (js_mul (js_at a 2) (js_at b 0)) (js_mul (js_at a 0) (js_at b 2)),
      js_sub (js_mul (js_at a 0) (js_at b 1)) (js_mul (js_at a 1) (js_at b 0))]"


text \<open>
  Modelled from the spec: the constants of the absent modules, for a given pair of default
  forward and up vectors. The spec fixes the default position, "(0,0,0)", and the supported
  orders, "integer in {1,2,3}"; it gives no value for the default forward and up vectors, the
  room dimensions, the materials or the speed of sound, so the two vectors are parameters and
  the other three are placeholders, which the program only copies.
\<close>

definition spec_env :: "jsnum list \<Rightarrow> jsnum list \<Rightarrow> env" where
  "spec_env forward up =
     \<lparr>DEFAULT_AMBISONIC_ORDER = Fin 1,
      DEFAULT_POSITION = [Fin 0, Fin 0, Fin 0],
      DEFAULT_FORWARD = forward,
      DEFAULT_UP = up,
      DEFAULT_SPEED_OF_SOUND = Fin 343,
      DEFAULT_DIMENSIONS = [(''width'', Fin 0), (''height'', Fin 0), (''depth'', Fin 0)],
      DEFAULT_MATERIALS = [(''left'', ''transparent''), (''right'', ''transparent''),
                           (''front'', ''transparent''), (''back'', ''transparent''),
                           (''down'', ''transparent''), (''up'', ''transparent'')],
      crossProduct = crossProduct_spec\<rparr>"

section \<open>Well-formed states\<close>

text \<open>The two buffers of a listener keep the sizes the constructor gives them.\<close>

definition wf_listener :: "listener \<Rightarrow> bool" where
  "wf_listener l = (length (position l) = 3 \<and> length (tempMatrix4 l) = 16)"

text \<open>The identities of the sources of a scene are pairwise different and already taken.\<close>

definition wf_scene :: "'o songbird \<times> 'o world \<Rightarrow> bool" where
  "wf_scene = (\<lambda>(this, w).
     wf_listener (sb_listener this)
     \<and> distinct (map source_ref (sb_sources this))
     \<and> list_all (\<lambda>s. source_ref s < next_ref w) (sb_sources this))"

text \<open>An initial world: nothing has happened, every options object is empty.\<close>

definition world0 :: "'o world" where
  "world0 = \<lparr>trace = [], next_ref = 0, heap = (\<lambda>r. new_Object)\<rparr>"

text \<open>
  The spec's words for the constructor, "writing the default value into each missing field",
  as a function of their own, to be compared with what the constructor does: the options
  object in which every field that is undefined holds its default and every other field is
  as it was. The defaults of the dimensions and the materials are the copies that
  \<open>Object.assign\<close> makes.
\<close>

definition options_with_defaults :: "env \<Rightarrow> songbird_options \<Rightarrow> songbird_options" where
  "options_with_defaults U obj =
     \<lparr>ambisonicOrder =
        Some (case ambisonicOrder obj of None \<Rightarrow> DEFAULT_AMBISONIC_ORDER U | Some v \<Rightarrow> v),
      listenerPosition =
        Some (case listenerPosition obj of None \<Rightarrow> DEFAULT_POSITION U | Some v \<Rightarrow> v),
      listenerForward =
        Some (case listenerForward obj of None \<Rightarrow> DEFAULT_FORWARD U | Some v \<Rightarrow> v),
      listenerUp =
        Some (case listenerUp obj of None \<Rightarrow> DEFAULT_UP U | Some v \<Rightarrow> v),
      dimensions =
        Some (case dimensions obj of None \<Rightarrow> Object_assign [] (DEFAULT_DIMENSIONS U)
              | Some v \<Rightarrow> v),
      materials =
        Some (case materials obj of None \<Rightarrow> Object_assign [] (DEFAULT_MATERIALS U)
              | Some v \<Rightarrow> v),
      speedOfSound =
        Some (case speedOfSound obj of None \<Rightarrow> DEFAULT_SPEED_OF_SOUND U | Some v \<Rightarrow> v)\<rparr>"

text \<open>An options object has a missing field when one of the seven recognized fields is
  undefined.\<close>

definition missing_field :: "songbird_options \<Rightarrow> bool" where
  "missing_field obj =
     (ambisonicOrder obj = None \<or> listenerPosition obj = None \<or> listenerForward obj = None
      \<or> listenerUp obj = None \<or> dimensions obj = None \<or> materials obj = None
      \<or> speedOfSound obj = None)"

text \<open>The numbers a \<open>Float32Array\<close> holds unchanged: the single-precision values.\<close>

definition is_float32 :: "jsnum \<Rightarrow> bool" where
  "is_float32 v = (fround v = v)"

text \<open>
  A caller that creates one source for each element of a list of options, by successive
  calls of \<open>createSource\<close>, and collects the sources returned.
\<close>

fun createSources ::
  "'o list \<Rightarrow> 'o songbird \<times> 'o world \<Rightarrow> 'o source list \<times> 'o songbird \<times> 'o world" where
  "createSources [] (this, w) = ([], this, w)"
| "createSources (options # rest) (this, w) =
     (let (source, this, w) = createSource options (this, w);
          (sources, this, w) = createSources rest (this, w)
      in (source # sources, this, w))"

text \<open>
  The calls a client can make on a scene, and a client that makes a sequence of them, one
  after the other (the source returned by \<open>createSource\<close> is dropped here).
\<close>

datatype 'o call =
    CreateSource 'o
  | SetRoomProperties "(string \<times> jsnum) list option" "(string \<times> string) list option"
  | SetListenerPosition jsnum jsnum jsnum
  | SetListenerOrientation jsnum jsnum jsnum jsnum jsnum jsnum
  | SetListenerFromMatrix matrix4

fun perform :: "env \<Rightarrow> 'o call \<Rightarrow> 'o songbird \<times> 'o world \<Rightarrow> 'o songbird \<times> 'o world" where
  "perform U (CreateSource options) s = snd (createSource options s)"
| "perform U (SetRoomProperties dims mats) s = setRoomProperties dims mats s"
| "perform U (SetListenerPosition x y z) s = setListenerPosition x y z s"
| "perform U (SetListenerOrientation fx fy fz ux uy uz) s =
     setListenerOrientation U fx fy fz ux uy uz s"
| "perform U (SetListenerFromMatrix matrix) s = setListenerFromMatrix matrix s"

definition run :: "env \<Rightarrow> 'o call list \<Rightarrow> 'o songbird \<times> 'o world \<Rightarrow> 'o songbird \<times> 'o world" where
  "run U calls s = fold (perform U) calls s"

text \<open>The options of the sources that a sequence of calls creates, in order.\<close>

fun created :: "'o call list \<Rightarrow> 'o list" where
  "created [] = []"
| "created (CreateSource options # calls) = options # created calls"
| "created (_ # calls) = created calls"

section \<open>Properties of the rounding\<close>

text \<open>
  The binary exponent is characterised by its two bounds; a value that fits the format is
  left unchanged by the rounding; and the result of a rounding fits the format, so that
  rounding twice is rounding once.
\<close>

lemma two_powi_less_cancel: "(2::rat) powi a < 2 powi b \<Longrightarrow> a < b"
proof (rule ccontr)
  assume l: "(2::rat) powi a < 2 powi b" and "\<not> a < b"
  then have "b \<le> a" by simp
  then have "(2::rat) powi b \<le> 2 powi a" by (intro power_int_increasing) simp_all
  with l show False by simp
qed

lemma bitlen_pos: "0 < n \<Longrightarrow> 1 \<le> bitlen n"
  using bitlen_eq_zero_iff [of n] bitlen_nonneg [of n] by linarith

lemma ilog2_lower:
  assumes "0 < x"
  shows "2 powi (ilog2 x) \<le> x"
proof (cases "1 \<le> x")
  case True
  then have f: "0 < \<lfloor>x\<rfloor>" by linarith
  have b: "0 \<le> bitlen \<lfloor>x\<rfloor> - 1" using bitlen_pos [OF f] by simp
  have "2 ^ nat (bitlen \<lfloor>x\<rfloor> - 1) \<le> \<lfloor>x\<rfloor>" using bitlen_bounds [OF f] by simp
  then have "(of_int (2 ^ nat (bitlen \<lfloor>x\<rfloor> - 1)) :: rat) \<le> of_int \<lfloor>x\<rfloor>"
    by (simp only: of_int_le_iff)
  also have "\<dots> \<le> x" by simp
  finally have "(2::rat) ^ nat (bitlen \<lfloor>x\<rfloor> - 1) \<le> x" by simp
  then show ?thesis using True b by (simp add: ilog2_def power_int_nonneg_exp)
next
  case False
  then have x1: "x < 1" by simp
  define m where "m = \<lceil>1 / x\<rceil>"
  have "1 < 1 / x" using assms x1 by (simp add: field_simps)
  then have m2: "2 \<le> m" unfolding m_def by linarith
  then have pos: "0 < m - 1" by simp
  have "m - 1 < 2 ^ nat (bitlen (m - 1))" using bitlen_bounds [OF pos] by simp
  then have "m \<le> 2 ^ nat (bitlen (m - 1))" by simp
  then have "(of_int m :: rat) \<le> of_int (2 ^ nat (bitlen (m - 1)))"
    by (simp only: of_int_le_iff)
  then have "(of_int m :: rat) \<le> 2 ^ nat (bitlen (m - 1))" by simp
  moreover have "1 / x \<le> of_int m" unfolding m_def by simp
  ultimately have "1 / x \<le> (2::rat) ^ nat (bitlen (m - 1))" by (rule order_trans [rotated])
  then have "1 / 2 ^ nat (bitlen (m - 1)) \<le> x"
    using assms by (simp add: field_simps)
  moreover have "(2::rat) powi (- bitlen (m - 1)) = 1 / 2 ^ nat (bitlen (m - 1))"
    using bitlen_nonneg [of "m - 1"] by (simp add: power_int_minus_divide power_int_nonneg_exp)
  ultimately show ?thesis using False by (simp add: ilog2_def m_def)
qed

lemma ilog2_upper:
  assumes "0 < x"
  shows "x < 2 powi (ilog2 x + 1)"
proof (cases "1 \<le> x")
  case True
  then have f: "0 < \<lfloor>x\<rfloor>" by linarith
  have b: "0 \<le> bitlen \<lfloor>x\<rfloor>" by (rule bitlen_nonneg)
  have "\<lfloor>x\<rfloor> < 2 ^ nat (bitlen \<lfloor>x\<rfloor>)" using bitlen_bounds [OF f] by simp
  then have "\<lfloor>x\<rfloor> + 1 \<le> 2 ^ nat (bitlen \<lfloor>x\<rfloor>)" by simp
  then have "(of_int (\<lfloor>x\<rfloor> + 1) :: rat) \<le> of_int (2 ^ nat (bitlen \<lfloor>x\<rfloor>))"
    by (simp only: of_int_le_iff)
  moreover have "x < of_int (\<lfloor>x\<rfloor> + 1)" by linarith
  ultimately have "x < (2::rat) ^ nat (bitlen \<lfloor>x\<rfloor>)" by simp
  then show ?thesis using True b by (simp add: ilog2_def power_int_nonneg_exp)
next
  case False
  then have x1: "x < 1" by simp
  define m where "m = \<lceil>1 / x\<rceil>"
  have "1 < 1 / x" using assms x1 by (simp add: field_simps)
  then have m2: "2 \<le> m" unfolding m_def by linarith
  then have pos: "0 < m - 1" by simp
  have b: "0 \<le> bitlen (m - 1) - 1" using bitlen_pos [OF pos] by simp
  have "2 ^ nat (bitlen (m - 1) - 1) \<le> m - 1" using bitlen_bounds [OF pos] by simp
  then have "(of_int (2 ^ nat (bitlen (m - 1) - 1)) :: rat) \<le> of_int (m - 1)"
    by (simp only: of_int_le_iff)
  moreover have "of_int (m - 1) < 1 / x" unfolding m_def by linarith
  ultimately have "(2::rat) ^ nat (bitlen (m - 1) - 1) < 1 / x" by simp
  then have "x < 1 / 2 ^ nat (bitlen (m - 1) - 1)"
    using assms by (simp add: field_simps)
  moreover have "(2::rat) powi (- bitlen (m - 1) + 1) = 1 / 2 ^ nat (bitlen (m - 1) - 1)"
  proof -
    have "- bitlen (m - 1) + 1 = - (bitlen (m - 1) - 1)" by simp
    then show ?thesis using b by (simp only: power_int_minus_divide power_int_nonneg_exp)
  qed
  ultimately show ?thesis using False by (simp add: ilog2_def m_def)
qed

lemma ilog2_less: "0 < x \<Longrightarrow> x < 2 powi j \<Longrightarrow> ilog2 x < j"
  using ilog2_lower [of x] two_powi_less_cancel [of "ilog2 x" j] by simp

lemma ilog2_unique:
  assumes "0 < x" "2 powi k \<le> x" "x < 2 powi (k + 1)"
  shows "ilog2 x = k"
proof -
  have "ilog2 x < k + 1" using assms by (intro ilog2_less)
  moreover have "(2::rat) powi k < 2 powi (ilog2 x + 1)"
    using assms(2) ilog2_upper [OF assms(1)] by simp
  then have "k < ilog2 x + 1" by (rule two_powi_less_cancel)
  ultimately show ?thesis by simp
qed

lemma round_half_even_of_int [simp]: "round_half_even (of_int n) = n"
  by (simp add: round_half_even_def)


lemma round_half_even_lower: "of_int a \<le> q \<Longrightarrow> a \<le> round_half_even q"
proof -
  assume "of_int a \<le> q"
  then have "a \<le> \<lfloor>q\<rfloor>" by (simp add: le_floor_iff)
  then show ?thesis by (simp add: round_half_even_def Let_def)
qed

lemma round_half_even_upper: "q \<le> of_int b \<Longrightarrow> round_half_even q \<le> b"
proof (cases "q = of_int b")
  case True
  then show ?thesis by simp
next
  case False
  assume "q \<le> of_int b"
  with False have "q < of_int b" by simp
  then have "\<lfloor>q\<rfloor> < b" by (simp add: floor_less_iff)
  then show ?thesis by (simp add: round_half_even_def Let_def)
qed

lemma two_powi_pos [simp]: "0 < (2::rat) powi k"
  by (simp add: zero_less_power_int)

lemma two_powi_add: "(2::rat) powi (a + b) = 2 powi a * 2 powi b"
  by (simp add: power_int_add)

lemma round_binary_exact:
  assumes x: "x = of_int n * 2 powi k"
    and n: "\<bar>n\<bar> < 2 ^ p"
    and k: "emin - (int p - 1) \<le> k"
    and b: "\<bar>x\<bar> < 2 powi (emax + 1)"
  shows "round_binary p emin emax x = Fin x"
proof (cases "x = 0")
  case True
  then show ?thesis by (simp add: round_binary_def)
next
  case False
  define j where "j = max (ilog2 \<bar>x\<bar>) emin - (int p - 1)"
  have ax: "\<bar>x\<bar> = of_int \<bar>n\<bar> * 2 powi k"
    using x by (simp add: abs_mult)
  have "(of_int \<bar>n\<bar> :: rat) < of_int (2 ^ p)" using n by (simp only: of_int_less_iff)
  then have "(of_int \<bar>n\<bar> :: rat) < 2 ^ p" by simp
  then have "\<bar>x\<bar> < 2 ^ p * 2 powi k" unfolding ax by (simp add: mult_strict_right_mono)
  also have "\<dots> = 2 powi (int p + k)" by (simp add: two_powi_add)
  finally have "ilog2 \<bar>x\<bar> < int p + k" using False by (intro ilog2_less) simp_all
  then have jk: "j \<le> k" using k unfolding j_def by simp
  have "(2::rat) powi k = 2 powi (j + (k - j))" by simp
  also have "\<dots> = 2 powi j * 2 powi (k - j)" by (rule two_powi_add)
  also have "\<dots> = 2 powi j * 2 ^ nat (k - j)" using jk by (simp add: power_int_nonneg_exp)
  finally have pk: "(2::rat) powi k = 2 powi j * 2 ^ nat (k - j)" .
  have q: "x / 2 powi j = of_int (n * 2 ^ nat (k - j))"
    unfolding x pk by simp
  have y: "of_int (n * 2 ^ nat (k - j)) * 2 powi j = x"
    unfolding x pk by simp
  show ?thesis
    using False b
    by (simp add: round_binary_def Let_def q [unfolded j_def] y [unfolded j_def]
        del: of_int_mult of_int_power)
qed

lemma round_binary_repr:
  assumes r: "round_binary p emin emax x = Fin y" and p: "0 < p"
  shows "\<exists>n k. y = of_int n * 2 powi k \<and> \<bar>n\<bar> < 2 ^ p \<and> emin - (int p - 1) \<le> k
           \<and> \<bar>y\<bar> < 2 powi (emax + 1)"
proof (cases "x = 0")
  case True
  then have "y = 0" using r by (simp add: round_binary_def)
  then have "y = of_int 0 * 2 powi (emin - (int p - 1)) \<and> \<bar>0::int\<bar> < 2 ^ p
      \<and> emin - (int p - 1) \<le> emin - (int p - 1) \<and> \<bar>y\<bar> < 2 powi (emax + 1)"
    by simp
  then show ?thesis by blast
next
  case False
  define e where "e = max (ilog2 \<bar>x\<bar>) emin"
  define j where "j = e - (int p - 1)"
  define q where "q = x / 2 powi j"
  define m where "m = round_half_even q"
  have y: "y = of_int m * 2 powi j" and bnd: "\<bar>y\<bar> < 2 powi (emax + 1)"
    using r False
    by (auto simp: round_binary_def Let_def m_def q_def j_def e_def split: if_splits)
  have "\<bar>x\<bar> < 2 powi (ilog2 \<bar>x\<bar> + 1)" using False by (intro ilog2_upper) simp
  also have "\<dots> \<le> 2 powi (e + 1)" unfolding e_def by (intro power_int_increasing) simp_all
  also have "\<dots> = 2 powi (int p + j)" unfolding j_def by simp
  also have "\<dots> = 2 ^ p * 2 powi j" by (simp add: two_powi_add)
  finally have "\<bar>x\<bar> / 2 powi j < 2 ^ p" by (simp add: field_simps)
  then have "\<bar>q\<bar> < 2 ^ p" unfolding q_def by (simp add: abs_divide)
  then have q1: "q \<le> of_int (2 ^ p)" and q2: "of_int (- (2 ^ p)) \<le> q" by simp_all
  have m1: "m \<le> 2 ^ p" unfolding m_def using q1 by (rule round_half_even_upper)
  have m2: "- (2 ^ p) \<le> m" unfolding m_def using q2 by (rule round_half_even_lower)
  have jm: "emin - (int p - 1) \<le> j" unfolding j_def e_def by simp
  show ?thesis
  proof (cases "\<bar>m\<bar> < 2 ^ p")
    case True
    with y jm bnd show ?thesis by blast
  next
    case False
    with m1 m2 have "m = 2 ^ p \<or> m = - (2 ^ p)" by linarith
    moreover obtain p' where p': "p = Suc p'" using p by (cases p) simp_all
    have "(2::rat) powi (j + 1) = 2 powi j * 2" by (simp add: two_powi_add)
    then have tw: "(2::rat) ^ p * 2 powi j = 2 ^ p' * 2 powi (j + 1)" unfolding p' by simp
    ultimately have "y = of_int (2 ^ p') * 2 powi (j + 1) \<or> y = of_int (- (2 ^ p')) * 2 powi (j + 1)"
      unfolding y using tw by auto
    moreover have "\<bar>2 ^ p' :: int\<bar> < 2 ^ p" "\<bar>- (2 ^ p') :: int\<bar> < 2 ^ p" unfolding p' by simp_all
    moreover have "emin - (int p - 1) \<le> j + 1" using jm by simp
    ultimately show ?thesis using bnd by blast
  qed
qed

lemma round_binary_idem:
  assumes "round_binary p emin emax x = Fin y" and "0 < p"
  shows "round_binary p emin emax y = Fin y"
proof -
  obtain n k where "y = of_int n * 2 powi k" "\<bar>n\<bar> < 2 ^ p" "emin - (int p - 1) \<le> k"
    "\<bar>y\<bar> < 2 powi (emax + 1)"
    using round_binary_repr [OF assms] by blast
  then show ?thesis by (rule round_binary_exact)
qed

lemma fround_idem [simp]: "fround (fround v) = fround v"
proof (cases v)
  case (Fin x)
  show ?thesis
  proof (cases "round_binary 24 (- 126) 127 x")
    case (Fin y)
    then have "round_binary 24 (- 126) 127 y = Fin y" by (rule round_binary_idem) simp
    then show ?thesis using Fin \<open>v = Fin x\<close> by (simp add: fround_def)
  qed (simp_all add: fround_def Fin)
qed (simp_all add: fround_def)

lemma fround_of_int: "\<bar>n\<bar> < 2 ^ 24 \<Longrightarrow> fround (Fin (of_int n)) = Fin (of_int n)"
proof -
  assume n: "\<bar>n\<bar> < 2 ^ 24"
  have "round_binary 24 (- 126) 127 (of_int n) = Fin (of_int n)"
  proof (rule round_binary_exact [where n = n and k = 0])
    show "(of_int n :: rat) = of_int n * 2 powi 0" by simp
    show "\<bar>n\<bar> < 2 ^ 24" by (rule n)
    show "- 126 - (int 24 - 1) \<le> 0" by simp
    have "(of_int \<bar>n\<bar> :: rat) < of_int (2 ^ 24)" using n by (simp only: of_int_less_iff)
    then show "\<bar>of_int n :: rat\<bar> < 2 powi (127 + 1)" by simp
  qed
  then show ?thesis by (simp add: fround_def)
qed

lemma dround_of_int: "\<bar>n\<bar> < 2 ^ 53 \<Longrightarrow> dround (of_int n) = Fin (of_int n)"
proof -
  assume n: "\<bar>n\<bar> < 2 ^ 53"
  show "dround (of_int n) = Fin (of_int n)" unfolding dround_def
  proof (rule round_binary_exact [where n = n and k = 0])
    show "(of_int n :: rat) = of_int n * 2 powi 0" by simp
    show "\<bar>n\<bar> < 2 ^ 53" by (rule n)
    show "- 1022 - (int 53 - 1) \<le> 0" by simp
    have "(of_int \<bar>n\<bar> :: rat) < of_int (2 ^ 53)" using n by (simp only: of_int_less_iff)
    then show "\<bar>of_int n :: rat\<bar> < 2 powi (1023 + 1)" by simp
  qed
qed

lemma two_powi_le_cancel: "(2::rat) powi a \<le> 2 powi b \<Longrightarrow> a \<le> b"
proof (rule ccontr)
  assume l: "(2::rat) powi a \<le> 2 powi b" and "\<not> a \<le> b"
  then have "b < a" by simp
  then have "(2::rat) powi b < 2 powi a" by (intro power_int_strict_increasing) simp_all
  with l show False by simp
qed

lemma ilog2_ge: "2 powi k \<le> x \<Longrightarrow> k \<le> ilog2 x"
proof -
  assume a: "2 powi k \<le> x"
  have "(0::rat) < 2 powi k" by simp
  with a have x: "0 < x" by linarith
  have "(2::rat) powi k < 2 powi (ilog2 x + 1)"
    using a ilog2_upper [OF x] by simp
  then have "k < ilog2 x + 1" by (rule two_powi_less_cancel)
  then show ?thesis by simp
qed

lemma ilog2_le: "0 < x \<Longrightarrow> x \<le> 2 powi k \<Longrightarrow> ilog2 x \<le> k"
proof -
  assume x: "0 < x" and a: "x \<le> 2 powi k"
  have "(2::rat) powi (ilog2 x) \<le> 2 powi k"
    using ilog2_lower [OF x] a by simp
  then show ?thesis by (rule two_powi_le_cancel)
qed

text \<open>The sign of a value survives the rounding.\<close>

lemma round_binary_nonpos:
  assumes "x \<le> 0"
  shows "round_binary p emin emax x = NInf \<or> (\<exists>y. round_binary p emin emax x = Fin y \<and> y \<le> 0)"
proof (cases "x = 0")
  case True
  then show ?thesis by (simp add: round_binary_def)
next
  case False
  define u :: rat where "u = 2 powi (max (ilog2 \<bar>x\<bar>) emin - (int p - 1))"
  have u: "0 < u" unfolding u_def by simp
  have "x / u \<le> of_int 0" using assms u by (simp add: divide_nonpos_pos)
  then have "round_half_even (x / u) \<le> 0" by (rule round_half_even_upper)
  then have "of_int (round_half_even (x / u)) * u \<le> 0"
    using u by (simp add: mult_nonpos_nonneg)
  then show ?thesis
    using False assms by (simp add: round_binary_def Let_def u_def)
qed

text \<open>A value whose magnitude is at most a power of two of the format rounds to a value
  whose magnitude is at most that power.\<close>

lemma round_binary_abs_le:
  assumes x: "\<bar>x\<bar> \<le> 2 powi k" and k: "emin - (int p - 1) \<le> k" "k \<le> emax" and p: "0 < p"
  shows "\<exists>y. round_binary p emin emax x = Fin y \<and> \<bar>y\<bar> \<le> 2 powi k"
proof (cases "x = 0")
  case True
  then show ?thesis by (simp add: round_binary_def)
next
  case False
  define j where "j = max (ilog2 \<bar>x\<bar>) emin - (int p - 1)"
  define u :: rat where "u = 2 powi j"
  define N :: int where "N = 2 ^ nat (k - j)"
  have u: "0 < u" unfolding u_def by simp
  have "ilog2 \<bar>x\<bar> \<le> k" using False x by (intro ilog2_le) simp_all
  then have jk: "j \<le> k" using k p unfolding j_def by simp
  have "(2::rat) powi k = 2 powi (j + (k - j))" by simp
  also have "\<dots> = u * 2 powi (k - j)" unfolding u_def by (rule two_powi_add)
  also have "\<dots> = u * of_int N" using jk unfolding N_def by (simp add: power_int_nonneg_exp)
  finally have pk: "(2::rat) powi k = of_int N * u" by simp
  have "\<bar>x / u\<bar> \<le> of_int N"
    using x u unfolding pk by (simp add: abs_divide field_simps)
  then have a1: "x / u \<le> of_int N" and a2: "- of_int N \<le> x / u" by linarith+
  from a2 have a3: "of_int (- N) \<le> x / u" by simp
  have "round_half_even (x / u) \<le> N" using a1 by (rule round_half_even_upper)
  moreover have "- N \<le> round_half_even (x / u)" using a3 by (rule round_half_even_lower)
  ultimately have "round_half_even (x / u) \<le> N" and "- N \<le> round_half_even (x / u)" .
  then have "\<bar>round_half_even (x / u)\<bar> \<le> N" by simp
  then have "(of_int \<bar>round_half_even (x / u)\<bar> :: rat) \<le> of_int N" by (simp only: of_int_le_iff)
  then have y: "\<bar>of_int (round_half_even (x / u)) * u\<bar> \<le> 2 powi k"
    using u unfolding pk by (simp add: abs_mult mult_right_mono)
  have "(2::rat) powi k < 2 powi (emax + 1)"
    using k by (intro power_int_strict_increasing) simp_all
  with y have "\<not> 2 powi (emax + 1) \<le> \<bar>of_int (round_half_even (x / u)) * u\<bar>" by simp
  then show ?thesis
    using False y by (simp add: round_binary_def Let_def u_def j_def)
qed

text \<open>A value whose magnitude is at least a power of two of the normal range rounds to a
  value whose magnitude is at least that power, or to an infinity.\<close>

lemma round_binary_abs_ge:
  assumes x: "2 powi k \<le> \<bar>x\<bar>" and k: "emin \<le> k" and p: "0 < p"
  shows "round_binary p emin emax x = PInf \<or> round_binary p emin emax x = NInf
       \<or> (\<exists>y. round_binary p emin emax x = Fin y \<and> 2 powi k \<le> \<bar>y\<bar>)"
proof -
  have "(0::rat) < 2 powi k" by simp
  with x have "0 < \<bar>x\<bar>" by linarith
  then have nz: "x \<noteq> 0" by simp
  define e where "e = ilog2 \<bar>x\<bar>"
  define u :: rat where "u = 2 powi (e - (int p - 1))"
  define N :: int where "N = 2 ^ (p - 1)"
  have u: "0 < u" unfolding u_def by simp
  have ke: "k \<le> e" unfolding e_def using x by (rule ilog2_ge)
  then have m: "max (ilog2 \<bar>x\<bar>) emin = e" using k unfolding e_def by simp
  have "(2::rat) powi e = 2 powi ((e - (int p - 1)) + (int p - 1))" by simp
  also have "\<dots> = u * 2 powi (int p - 1)" unfolding u_def by (rule two_powi_add)
  also have "\<dots> = u * of_int N"
    using p unfolding N_def by (simp add: power_int_nonneg_exp nat_diff_distrib)
  finally have pe: "(2::rat) powi e = of_int N * u" by simp
  have "(2::rat) powi e \<le> \<bar>x\<bar>" unfolding e_def using nz by (intro ilog2_lower) simp
  then have q: "of_int N \<le> \<bar>x / u\<bar>"
    using u unfolding pe by (simp add: abs_divide field_simps)
  have "N \<le> \<bar>round_half_even (x / u)\<bar>"
  proof (cases "0 \<le> x")
    case True
    then have "of_int N \<le> x / u" using q u by (simp add: abs_divide)
    then have "N \<le> round_half_even (x / u)" by (rule round_half_even_lower)
    then show ?thesis by simp
  next
    case False
    then have "x / u \<le> of_int (- N)" using q u by (simp add: abs_divide field_simps)
    then have "round_half_even (x / u) \<le> - N" by (rule round_half_even_upper)
    then show ?thesis by simp
  qed
  then have "(of_int N :: rat) \<le> of_int \<bar>round_half_even (x / u)\<bar>" by (simp only: of_int_le_iff)
  then have "2 powi e \<le> \<bar>of_int (round_half_even (x / u)) * u\<bar>"
    using u unfolding pe by (simp add: abs_mult mult_right_mono)
  moreover have "(2::rat) powi k \<le> 2 powi e" using ke by (intro power_int_increasing) simp_all
  ultimately have "2 powi k \<le> \<bar>of_int (round_half_even (x / u)) * u\<bar>" by simp
  then show ?thesis
    using nz by (simp add: round_binary_def Let_def m u_def)
qed


lemma round_binary_nonneg:
  assumes "0 \<le> x"
  shows "round_binary p emin emax x = PInf \<or> (\<exists>y. round_binary p emin emax x = Fin y \<and> 0 \<le> y)"
proof (cases "x = 0")
  case True
  then show ?thesis by (simp add: round_binary_def)
next
  case False
  define u :: rat where "u = 2 powi (max (ilog2 \<bar>x\<bar>) emin - (int p - 1))"
  have u: "0 < u" unfolding u_def by simp
  have "of_int 0 \<le> x / u" using assms u by simp
  then have "0 \<le> round_half_even (x / u)" by (rule round_half_even_lower)
  then have "0 \<le> of_int (round_half_even (x / u)) * u"
    using u by simp
  then show ?thesis
    using False assms by (simp add: round_binary_def Let_def u_def)
qed

lemma fround_Fin_D: "fround v = Fin y \<Longrightarrow> \<exists>x. v = Fin x"
  by (cases v) (simp_all add: fround_def)

lemma fround_eq_1_D:
  assumes "fround (Fin x) = Fin 1"
  shows "1 / 2 < x"
proof (rule ccontr)
  assume "\<not> 1 / 2 < x"
  then have x: "x \<le> 1 / 2" by simp
  show False
  proof (cases "x \<le> 0")
    case True
    from round_binary_nonpos [OF True, of 24 "- 126" 127] assms
    show False by (auto simp: fround_def)
  next
    case False
    then have "\<bar>x\<bar> \<le> 2 powi (- 1)" using x by (simp add: power_int_minus_divide)
    from round_binary_abs_le [OF this, of "- 126" 24 127] assms
    show False by (auto simp: fround_def power_int_minus_divide)
  qed
qed

lemma fround_eq_0_D:
  assumes "fround (Fin x) = Fin 0"
  shows "\<bar>x\<bar> < 2 powi (- 126)"
proof (rule ccontr)
  assume "\<not> \<bar>x\<bar> < 2 powi (- 126)"
  then have "2 powi (- 126) \<le> \<bar>x\<bar>" by simp
  from round_binary_abs_ge [OF this, of "- 126" 24 127] assms
  have "(2::rat) powi (- 126) \<le> 0" by (auto simp: fround_def)
  moreover have "(0::rat) < 2 powi (- 126)" by (rule two_powi_pos)
  ultimately show False by linarith
qed

lemma js_mul_small:
  assumes "\<bar>a\<bar> < 2 powi (- 126)" "\<bar>b\<bar> < 2 powi (- 126)"
  shows "\<exists>t. js_mul (Fin a) (Fin b) = Fin t \<and> \<bar>t\<bar> \<le> 2 powi (- 252)"
proof -
  have "\<bar>a\<bar> * \<bar>b\<bar> \<le> 2 powi (- 126) * 2 powi (- 126)"
    using assms by (intro mult_mono) simp_all
  also have "\<dots> = (2::rat) powi (- 252)"
    using two_powi_add [of "- 126" "- 126"] by simp
  finally have "\<bar>a * b\<bar> \<le> 2 powi (- 252)" by (simp add: abs_mult)
  from round_binary_abs_le [OF this, of "- 1022" 53 1023]
  show ?thesis by (simp add: js_mul_def dround_def)
qed

lemma js_mul_big:
  assumes "1 / 2 < c" "1 / 2 < d"
  shows "js_mul (Fin c) (Fin d) = PInf \<or> (\<exists>s. js_mul (Fin c) (Fin d) = Fin s \<and> 1 / 4 \<le> s)"
proof -
  have "(1 / 2) * (1 / 2) \<le> c * d"
    using assms by (intro mult_mono) simp_all
  then have cd: "1 / 4 \<le> c * d" by simp
  then have "2 powi (- 2) \<le> \<bar>c * d\<bar>" by (simp add: power_int_minus_divide)
  from round_binary_abs_ge [OF this, of "- 1022" 53 1023]
  have a: "dround (c * d) = PInf \<or> dround (c * d) = NInf
      \<or> (\<exists>y. dround (c * d) = Fin y \<and> 1 / 4 \<le> \<bar>y\<bar>)"
    by (simp add: dround_def power_int_minus_divide)
  have "0 \<le> c * d" using cd by linarith
  from round_binary_nonneg [OF this, of 53 "- 1022" 1023]
  have b: "dround (c * d) = PInf \<or> (\<exists>y. dround (c * d) = Fin y \<and> 0 \<le> y)"
    by (simp add: dround_def)
  from a b have "dround (c * d) = PInf \<or> (\<exists>y. dround (c * d) = Fin y \<and> 1 / 4 \<le> y)"
    by auto
  then show ?thesis by (simp add: js_mul_def)
qed

lemma js_sub_negative:
  assumes "\<bar>t\<bar> \<le> 2 powi (- 252)" "1 / 4 \<le> s"
  shows "js_sub (Fin t) (Fin s) = NInf \<or> (\<exists>z. js_sub (Fin t) (Fin s) = Fin z \<and> z \<le> 0)"
proof -
  have "(2::rat) powi (- 252) \<le> 2 powi (- 2)"
    by (intro power_int_increasing) simp_all
  then have "(2::rat) powi (- 252) \<le> 1 / 4" by (simp add: power_int_minus_divide)
  then have "t - s \<le> 0" using assms by linarith
  from round_binary_nonpos [OF this, of 53 "- 1022" 1023]
  show ?thesis by (simp add: js_sub_def dround_def)
qed

lemma fround_nonpos_not_1: "z \<le> 0 \<Longrightarrow> fround (Fin z) \<noteq> Fin 1"
  using round_binary_nonpos [of z 24 "- 126" 127] by (auto simp: fround_def)

text \<open>Evaluation at the small integers used in the examples.\<close>

lemma fround_numerals [simp]:
  "fround (Fin 0) = Fin 0" "fround (Fin 1) = Fin 1" "fround (Fin (- 1)) = Fin (- 1)"
  using fround_of_int [of 0] fround_of_int [of 1] fround_of_int [of "- 1"] by simp_all

lemma fround_special [simp]: "fround NaN = NaN" "fround PInf = PInf" "fround NInf = NInf"
  by (simp_all add: fround_def)

lemma js_mul_int:
  "\<bar>a * b\<bar> < 2 ^ 53 \<Longrightarrow> js_mul (Fin (of_int a)) (Fin (of_int b)) = Fin (of_int (a * b))"
  using dround_of_int [of "a * b"] by (simp add: js_mul_def)

lemma js_sub_int:
  "\<bar>a - b\<bar> < 2 ^ 53 \<Longrightarrow> js_sub (Fin (of_int a)) (Fin (of_int b)) = Fin (of_int (a - b))"
  using dround_of_int [of "a - b"] by (simp add: js_sub_def)

lemma js_arith [simp]:
  "js_mul (Fin 0) (Fin 0) = Fin 0" "js_mul (Fin 0) (Fin 1) = Fin 0"
  "js_mul (Fin 1) (Fin 0) = Fin 0" "js_mul (Fin 1) (Fin 1) = Fin 1"
  "js_mul (Fin 0) (Fin (- 1)) = Fin 0" "js_mul (Fin (- 1)) (Fin 0) = Fin 0"
  "js_mul (Fin 1) (Fin (- 1)) = Fin (- 1)" "js_mul (Fin (- 1)) (Fin 1) = Fin (- 1)"
  "js_sub (Fin 0) (Fin 0) = Fin 0" "js_sub (Fin 0) (Fin 1) = Fin (- 1)"
  "js_sub (Fin 1) (Fin 0) = Fin 1" "js_sub (Fin 1) (Fin 1) = Fin 0"
  "js_sub (Fin 0) (Fin (- 1)) = Fin 1" "js_sub (Fin (- 1)) (Fin 0) = Fin (- 1)"
  using js_mul_int [of 0 0] js_mul_int [of 0 1] js_mul_int [of 1 0] js_mul_int [of 1 1]
    js_mul_int [of 0 "- 1"] js_mul_int [of "- 1" 0] js_mul_int [of 1 "- 1"] js_mul_int [of "- 1" 1]
    js_sub_int [of 0 0] js_sub_int [of 0 1] js_sub_int [of 1 0] js_sub_int [of 1 1]
    js_sub_int [of 0 "- 1"] js_sub_int [of "- 1" 0]
  by simp_all

lemma ilog2_16777217: "ilog2 16777217 = 24"
  by (rule ilog2_unique) simp_all

lemma fround_16777217: "fround (Fin 16777217) = Fin 16777216"
proof -
  have "\<lfloor>16777217 / 2 :: rat\<rfloor> = 8388608" by (rule floor_unique) simp_all
  then show ?thesis
    by (simp add: fround_def round_binary_def Let_def ilog2_16777217 round_half_even_def)
qed

lemma crossProduct_spec_examples:
  "crossProduct_spec [Fin 0, Fin 0, Fin 1] [Fin 0, Fin 1, Fin 0] = [Fin (- 1), Fin 0, Fin 0]"
  "crossProduct_spec [Fin 0, Fin 0, Fin (- 1)] [Fin 0, Fin 1, Fin 0] = [Fin 1, Fin 0, Fin 0]"
  "crossProduct_spec [Fin 0, Fin 1, Fin 0] [Fin 0, Fin 1, Fin 0] = [Fin 0, Fin 0, Fin 0]"
  by (simp_all add: crossProduct_spec_def js_at_def)

lemma ilog2_tenth: "ilog2 (3602879701896397 / 36028797018963968) = - 4"
  by (rule ilog2_unique) (simp_all add: power_int_minus_divide)

text \<open>The double nearest to 0.1 is not a single-precision value.\<close>

lemma fround_tenth:
  "fround (Fin (3602879701896397 / 36028797018963968)) = Fin (13421773 / 134217728)"
proof -
  have f: "\<lfloor>3602879701896397 / 268435456 :: rat\<rfloor> = 13421772"
    by (rule floor_unique) simp_all
  have a: "\<bar>3602879701896397 / 36028797018963968 :: rat\<bar> = 3602879701896397 / 36028797018963968"
    by simp
  show ?thesis
    unfolding fround_def jsnum.case round_binary_def a ilog2_tenth Let_def
    by (simp add: power_int_minus_divide round_half_even_def f Let_def)
qed

section \<open>Auxiliary facts\<close>

lemma fold_emit: "fold (\<lambda>element. emit (f element)) xs w = w\<lparr>trace := trace w @ map f xs\<rparr>"
  by (induction xs arbitrary: w) (simp_all add: emit_def)

lemma length3E: "length p = 3 \<Longrightarrow> \<exists>a b c. p = [a, b, c]"
  by (auto simp: length_Suc_conv numeral_3_eq_3)

lemma length9E:
  "length xs = 9 \<Longrightarrow> \<exists>a0 a1 a2 a3 a4 a5 a6 a7 a8. xs = [a0, a1, a2, a3, a4, a5, a6, a7, a8]"
  by (auto simp: length_Suc_conv eval_nat_numeral)

lemma length16E:
  assumes "length m = 16"
  shows "\<exists>a0 a1 a2 a3 a4 a5 a6 a7 a8 rest.
           m = [a0, a1, a2, a3, a4, a5, a6, a7, a8] @ rest \<and> length rest = 7"
proof -
  have "length (take 9 m) = 9" using assms by simp
  then obtain a0 a1 a2 a3 a4 a5 a6 a7 a8
    where t: "take 9 m = [a0, a1, a2, a3, a4, a5, a6, a7, a8]"
    using length9E by blast
  have "m = take 9 m @ drop 9 m" by simp
  then have "m = [a0, a1, a2, a3, a4, a5, a6, a7, a8] @ drop 9 m" using t by simp
  moreover have "length (drop 9 m) = 7" using assms by simp
  ultimately show ?thesis by blast
qed

lemma js_at_simps [simp]:
  "js_at [] i = NaN"
  "js_at (x # xs) 0 = x"
  "js_at (x # xs) (Suc n) = js_at xs n"
  "js_at (x # xs) (numeral k) = js_at xs (pred_numeral k)"
  by (simp_all add: js_at_def numeral_eq_Suc)

lemma length_Float32Array [simp]: "length (Float32Array n) = n"
  by (simp add: Float32Array_def)

lemma length_f32_set [simp]: "length (f32_set xs i v) = length xs"
  by (simp add: f32_set_def)

lemma f32_set_simps [simp]:
  "f32_set [] i v = []"
  "f32_set (x # xs) 0 v = fround v # xs"
  "f32_set (x # xs) (Suc n) v = x # f32_set xs n v"
  "f32_set (x # xs) (numeral k) v = x # f32_set xs (pred_numeral k) v"
  by (simp_all add: f32_set_def numeral_eq_Suc)

lemma setOrientation_eq:
  assumes "length (tempMatrix4 this) = 16"
  shows "setOrientation U fx fy fz ux uy uz (this, w) =
     (let right = crossProduct U [fx, fy, fz] [ux, uy, uz];
          m = [fround (js_at right 0), fround (js_at right 1), fround (js_at right 2),
               fround ux, fround uy, fround uz,
               fround fx, fround fy, fround fz] @ drop 9 (tempMatrix4 this)
      in (this\<lparr>tempMatrix4 := m\<rparr>, w\<lparr>trace := trace w @ [SetRotationMatrix m]\<rparr>))"
proof -
  obtain a0 a1 a2 a3 a4 a5 a6 a7 a8 rest
    where m: "tempMatrix4 this = [a0, a1, a2, a3, a4, a5, a6, a7, a8] @ rest"
    using length16E [OF assms] by blast
  show ?thesis
    by (simp add: setOrientation_def Let_def emit_def m)
qed

lemma setFromMatrix_eq:
  assumes "wf_listener this"
  shows "setFromMatrix matrix4 (this, w) =
     (let e = js_at (elements matrix4);
          m = [fround (e 0), fround (e 1), fround (e 2), fround (e 4), fround (e 5), fround (e 6),
               fround (e 8), fround (e 9), fround (e 10)] @ drop 9 (tempMatrix4 this)
      in (this\<lparr>tempMatrix4 := m, position := [fround (e 12), fround (e 13), fround (e 14)]\<rparr>,
          w\<lparr>trace := trace w @ [SetRotationMatrix m, PositionStore 0 (fround (e 12)),
                 PositionStore 1 (fround (e 13)), PositionStore 2 (fround (e 14))]\<rparr>))"
proof -
  have l: "length (tempMatrix4 this) = 16" and "length (position this) = 3"
    using assms by (simp_all add: wf_listener_def)
  then obtain a b c where p: "position this = [a, b, c]"
    using length3E by blast
  obtain a0 a1 a2 a3 a4 a5 a6 a7 a8 rest
    where m: "tempMatrix4 this = [a0, a1, a2, a3, a4, a5, a6, a7, a8] @ rest"
    using length16E [OF l] by blast
  show ?thesis
    by (simp add: setFromMatrix_def store_position_def Let_def emit_def m p)
qed

lemma setListenerPosition_eq:
  assumes "length (position (sb_listener this)) = 3"
  shows "setListenerPosition x y z (this, w) =
     (this\<lparr>sb_listener := (sb_listener this)\<lparr>position := [fround x, fround y, fround z]\<rparr>\<rparr>,
      w\<lparr>trace := trace w
           @ [PositionStore 0 (fround x), PositionStore 1 (fround y), PositionStore 2 (fround z),
              RoomSetListenerPosition x y z]
           @ map (\<lambda>s. SourceUpdate (source_ref s)) (sb_sources this)\<rparr>)"
proof -
  obtain a b c where p: "position (sb_listener this) = [a, b, c]"
    using assms length3E by blast
  show ?thesis
    by (simp add: setListenerPosition_def store_position_def Let_def fold_emit emit_def p)
qed

lemma Listener_defaults_eq:
  assumes "opt_ambisonicOrder obj \<noteq> None"
  shows "Listener_defaults U (Some obj) =
     Inr \<lparr>opt_ambisonicOrder = opt_ambisonicOrder obj,
          opt_position = Some (case opt_position obj of None \<Rightarrow> DEFAULT_POSITION U | Some p \<Rightarrow> p),
          opt_forward = Some (case opt_forward obj of None \<Rightarrow> DEFAULT_FORWARD U | Some f \<Rightarrow> f),
          opt_up = Some (case opt_up obj of None \<Rightarrow> DEFAULT_UP U | Some u \<Rightarrow> u)\<rparr>"
proof -
  obtain v where v: "opt_ambisonicOrder obj = Some v"
    using assms by blast
  show ?thesis
    by (cases obj)
       (use v in \<open>simp add: Listener_defaults_def default_from_def resolve_def listener_js_def
          split: option.split\<close>)
qed

lemma Listener_eq:
  assumes "opt_ambisonicOrder obj \<noteq> None"
  shows "Listener U (Some obj) w =
     (let forward = (case opt_forward obj of None \<Rightarrow> DEFAULT_FORWARD U | Some f \<Rightarrow> f);
          up = (case opt_up obj of None \<Rightarrow> DEFAULT_UP U | Some u \<Rightarrow> u);
          right = crossProduct U [js_at forward 0, js_at forward 1, js_at forward 2]
                    [js_at up 0, js_at up 1, js_at up 2];
          m = [fround (js_at right 0), fround (js_at right 1), fround (js_at right 2),
               fround (js_at up 0), fround (js_at up 1), fround (js_at up 2),
               fround (js_at forward 0), fround (js_at forward 1), fround (js_at forward 2)]
              @ replicate 7 (Fin 0)
      in (Inr (\<lparr>position = [Fin 0, Fin 0, Fin 0], tempMatrix4 = m\<rparr>,
               \<lparr>opt_ambisonicOrder = opt_ambisonicOrder obj,
                opt_position = Some (case opt_position obj of None \<Rightarrow> DEFAULT_POSITION U
                                     | Some p \<Rightarrow> p),
                opt_forward = Some forward, opt_up = Some up\<rparr>),
          w\<lparr>trace := trace w @ [CreateHOARenderer (opt_ambisonicOrder obj)
                                  (HRIR_urls (opt_ambisonicOrder obj)),
                 CreateGain ListenerInput, CreateGain ListenerAmbisonicOutput,
                 CreateGain ListenerOutput, RendererInitialize, SetRotationMatrix m]\<rparr>))"
proof -
  have r: "drop 9 (Float32Array 16) = replicate 7 (Fin 0)"
    by (simp add: Float32Array_def)
  have z: "Float32Array 3 = [Fin 0, Fin 0, Fin 0]"
    by (simp add: Float32Array_def eval_nat_numeral)
  show ?thesis
    by (simp add: Listener_def Listener_defaults_eq [OF assms] Let_def emit_def
        setOrientation_eq r z)
qed

section \<open>The constructors and the sources, as equations\<close>

lemma count_updates:
  fixes xs :: "'o source list"
  assumes "distinct (map source_ref xs)" and "s \<in> set xs"
  shows "count_list (map (\<lambda>s. SourceUpdate (source_ref s) :: 'o event) xs)
           (SourceUpdate (source_ref s)) = 1"
  using assms
proof (induction xs)
  case Nil
  then show ?case by simp
next
  case (Cons a xs)
  show ?case
  proof (cases "a = s")
    case True
    have "source_ref s \<notin> source_ref ` set xs" using Cons.prems True by simp
    then have "(SourceUpdate (source_ref s) :: 'o event)
                 \<notin> set (map (\<lambda>s. SourceUpdate (source_ref s)) xs)"
      by auto
    then show ?thesis using True by simp
  next
    case False
    then have "s \<in> set xs" and "source_ref a \<noteq> source_ref s" using Cons.prems by auto
    then show ?thesis using Cons by simp
  qed
qed

lemma spec_env_simps [simp]:
  "DEFAULT_AMBISONIC_ORDER (spec_env f u) = Fin 1"
  "DEFAULT_POSITION (spec_env f u) = [Fin 0, Fin 0, Fin 0]"
  "DEFAULT_FORWARD (spec_env f u) = f"
  "DEFAULT_UP (spec_env f u) = u"
  "crossProduct (spec_env f u) = crossProduct_spec"
  by (simp_all add: spec_env_def)

lemma drop_9_Float32Array_16:
  "drop 9 (Float32Array 16) = [Fin 0, Fin 0, Fin 0, Fin 0, Fin 0, Fin 0, Fin 0]"
  by (simp add: Float32Array_def eval_nat_numeral)

lemma Float32Array_3: "Float32Array 3 = [Fin 0, Fin 0, Fin 0]"
  by (simp add: Float32Array_def eval_nat_numeral)

lemma update_fresh: "k \<notin> fst ` set al \<Longrightarrow> AList.update k v al = al @ [(k, v)]"
  by (induction al) auto

lemma fold_update_fresh:
  "distinct (map fst D) \<Longrightarrow> fst ` set D \<inter> fst ` set acc = {}
     \<Longrightarrow> fold (\<lambda>(k, v) t. AList.update k v t) D acc = acc @ D"
proof (induction D arbitrary: acc)
  case Nil
  then show ?case by simp
next
  case (Cons a D)
  obtain k v where a: "a = (k, v)" by (cases a)
  have k: "k \<notin> fst ` set acc" using Cons.prems(2) a by auto
  have "fst ` set D \<inter> fst ` set (acc @ [(k, v)]) = {}"
    using Cons.prems a by auto
  then have "fold (\<lambda>(k, v) t. AList.update k v t) D (acc @ [(k, v)]) = (acc @ [(k, v)]) @ D"
    using Cons.prems(1) by (intro Cons.IH) simp_all
  then show ?case by (simp add: a update_fresh [OF k])
qed

text \<open>\<open>Object.assign({}, D)\<close> is a copy of \<open>D\<close> (an object has each key once).\<close>

lemma Object_assign_empty: "distinct (map fst D) \<Longrightarrow> Object_assign [] D = D"
  using fold_update_fresh [of D "[]"] by (simp add: Object_assign_def)

lemma default_from_bound:
  "M \<in> set scope \<Longrightarrow>
     default_from scope M D field = Inr (Some (case field of None \<Rightarrow> D | Some v \<Rightarrow> v))"
  by (simp add: default_from_def resolve_def split: option.split)

lemma Songbird_defaults_eq:
  "Songbird_defaults U options =
     Inr (options_with_defaults U (case options of None \<Rightarrow> new_Object | Some obj \<Rightarrow> obj))"
  by (simp add: Songbird_defaults_def default_from_bound songbird_js_def Let_def
      options_with_defaults_def)

lemma options_with_defaults_idem [simp]:
  "options_with_defaults U (options_with_defaults U obj) = options_with_defaults U obj"
  by (simp add: options_with_defaults_def)

lemma options_with_defaults_changes:
  "options_with_defaults U obj \<noteq> obj" if "missing_field obj"
proof
  assume "options_with_defaults U obj = obj"
  then have "\<not> missing_field (options_with_defaults U obj) \<Longrightarrow> \<not> missing_field obj"
    by simp
  moreover have "\<not> missing_field (options_with_defaults U obj)"
    by (simp add: missing_field_def options_with_defaults_def)
  ultimately show False using that by simp
qed

lemma Songbird_eq:
  "Songbird U options w =
     (let obj0 = (case options of None \<Rightarrow> new_Object | Some r \<Rightarrow> heap w r);
          obj = options_with_defaults U obj0;
          forward = (case listenerForward obj0 of None \<Rightarrow> DEFAULT_FORWARD U | Some f \<Rightarrow> f);
          up = (case listenerUp obj0 of None \<Rightarrow> DEFAULT_UP U | Some u \<Rightarrow> u);
          right = crossProduct U [js_at forward 0, js_at forward 1, js_at forward 2]
                    [js_at up 0, js_at up 1, js_at up 2];
          m = [fround (js_at right 0), fround (js_at right 1), fround (js_at right 2),
               fround (js_at up 0), fround (js_at up 1), fround (js_at up 2),
               fround (js_at forward 0), fround (js_at forward 1), fround (js_at forward 2)]
              @ replicate 7 (Fin 0)
      in (Inr \<lparr>sb_ambisonicOrder = ambisonicOrder obj, sb_sources = [],
               sb_listener = \<lparr>position = [Fin 0, Fin 0, Fin 0], tempMatrix4 = m\<rparr>\<rparr>,
          w\<lparr>heap := (case options of None \<Rightarrow> heap w | Some r \<Rightarrow> (heap w)(r := obj)),
            trace := trace w @
              [NewRoom \<lparr>room_listenerPosition = listenerPosition obj,
                        room_dimensions = dimensions obj,
                        room_materials = materials obj,
                        room_speedOfSound = speedOfSound obj\<rparr>,
               CreateHOARenderer (ambisonicOrder obj) (HRIR_urls (ambisonicOrder obj)),
               CreateGain ListenerInput, CreateGain ListenerAmbisonicOutput,
               CreateGain ListenerOutput, RendererInitialize, SetRotationMatrix m,
               CreateGain SongbirdOutput, CreateGain SongbirdAmbisonicOutput,
               Connect RoomOutput ListenerInput, Connect ListenerOutput SongbirdOutput,
               Connect ListenerAmbisonicOutput SongbirdAmbisonicOutput]\<rparr>))"
proof -
  define obj0 where "obj0 = (case options of None \<Rightarrow> new_Object | Some r \<Rightarrow> heap w r)"
  have d: "Songbird_defaults U (map_option (heap w) options) = Inr (options_with_defaults U obj0)"
    unfolding Songbird_defaults_eq obj0_def by (cases options) simp_all
  show ?thesis
    unfolding Songbird_def d obj0_def [symmetric] Let_def
    by (cases options)
       (simp_all add: Listener_eq Let_def emit_def options_with_defaults_def)
qed


lemma createSource_eq:
  "createSource options (this, w) =
     (\<lparr>source_ref = next_ref w, source_options = options\<rparr>,
      this\<lparr>sb_sources := sb_sources this
               @ [\<lparr>source_ref = next_ref w, source_options = options\<rparr>]\<rparr>,
      w\<lparr>next_ref := Suc (next_ref w), trace := trace w @ [NewSource (next_ref w) options]\<rparr>)"
  by (simp add: createSource_def new_Source_def emit_def)

section \<open>Every scene is well-formed\<close>

lemma setOrientation_wf:
  "wf_listener this \<Longrightarrow> wf_listener (fst (setOrientation U fx fy fz ux uy uz (this, w)))"
  by (simp add: setOrientation_def wf_listener_def Let_def)

lemma setFromMatrix_wf:
  "wf_listener this \<Longrightarrow> wf_listener (fst (setFromMatrix matrix (this, w)))"
  by (simp add: setFromMatrix_eq wf_listener_def Let_def)

lemma Listener_wf:
  assumes "fst (Listener U options w) = Inr (l, options')"
  shows "wf_listener l"
proof (cases "options = None \<or> (\<exists>obj. options = Some obj \<and> opt_ambisonicOrder obj = None)")
  case True
  then have "Listener U options w = (Inl (ReferenceError ''Encoder''), w)"
    by (auto simp: Listener_def Listener_defaults_def default_from_def resolve_def listener_js_def)
  with assms show ?thesis by simp
next
  case False
  then obtain obj where "options = Some obj" "opt_ambisonicOrder obj \<noteq> None" by auto
  with assms show ?thesis
    by (auto simp: Listener_eq Let_def wf_listener_def)
qed

lemma Songbird_wf:
  assumes "Songbird U options w = (Inr this, w')"
  shows "wf_scene (this, w')"
  using assms by (auto simp: Songbird_eq Let_def wf_scene_def wf_listener_def)

lemma perform_wf:
  assumes "wf_scene s"
  shows "wf_scene (perform U c s)"
proof -
  obtain this w where s: "s = (this, w)" by (cases s)
  have l: "wf_listener (sb_listener this)"
    and l3: "length (position (sb_listener this)) = 3"
    and d: "distinct (map source_ref (sb_sources this))"
    and n: "list_all (\<lambda>s. source_ref s < next_ref w) (sb_sources this)"
    using assms by (simp_all add: s wf_scene_def wf_listener_def)
  show ?thesis
  proof (cases c)
    case (CreateSource options)
    have "next_ref w \<notin> source_ref ` set (sb_sources this)"
      using n by (auto simp: list_all_iff)
    moreover have "list_all (\<lambda>s. source_ref s < Suc (next_ref w)) (sb_sources this)"
      using n by (auto simp: list_all_iff)
    ultimately show ?thesis
      using l d by (simp add: CreateSource s createSource_eq wf_scene_def)
  next
    case (SetRoomProperties dims mats)
    then show ?thesis using assms by (simp add: s setRoomProperties_def wf_scene_def emit_def)
  next
    case (SetListenerPosition x y z)
    then show ?thesis
      using l d n by (simp add: s setListenerPosition_eq [OF l3] wf_scene_def wf_listener_def)
  next
    case (SetListenerOrientation fx fy fz ux uy uz)
    have t: "length (tempMatrix4 (sb_listener this)) = 16"
      using l by (simp add: wf_listener_def)
    show ?thesis
      using l d n
      by (simp add: SetListenerOrientation s setListenerOrientation_def
          setOrientation_eq [OF t] Let_def wf_scene_def wf_listener_def)
  next
    case (SetListenerFromMatrix matrix)
    then show ?thesis
      using l d n
      by (simp add: s setListenerFromMatrix_def setFromMatrix_eq [OF l] Let_def
          setListenerPosition_eq wf_scene_def wf_listener_def)
  qed
qed

text \<open>
  The scene the constructor returns is well-formed, and so is every scene that a sequence of
  calls makes of it.
\<close>

lemma run_wf: "wf_scene s \<Longrightarrow> wf_scene (run U calls s)"
  unfolding run_def by (induction calls arbitrary: s) (simp_all add: perform_wf)

lemma perform_sources:
  assumes "wf_listener (sb_listener this)"
  shows "\<exists>new. sb_sources (fst (perform U c (this, w))) = sb_sources this @ new
           \<and> map source_options new = created [c]
           \<and> wf_listener (sb_listener (fst (perform U c (this, w))))"
proof -
  have l3: "length (position (sb_listener this)) = 3"
    and t: "length (tempMatrix4 (sb_listener this)) = 16"
    using assms by (simp_all add: wf_listener_def)
  show ?thesis
  proof (cases c)
    case (CreateSource options)
    then show ?thesis using assms by (simp add: createSource_eq)
  next
    case (SetRoomProperties dims mats)
    then show ?thesis using assms by (simp add: setRoomProperties_def)
  next
    case (SetListenerPosition x y z)
    then show ?thesis
      using assms by (simp add: setListenerPosition_eq [OF l3] wf_listener_def)
  next
    case (SetListenerOrientation fx fy fz ux uy uz)
    then show ?thesis
      using assms
      by (simp add: setListenerOrientation_def setOrientation_eq [OF t] Let_def wf_listener_def)
  next
    case (SetListenerFromMatrix matrix)
    then show ?thesis
      using assms
      by (simp add: setListenerFromMatrix_def setFromMatrix_eq [OF assms] Let_def
          setListenerPosition_eq wf_listener_def)
  qed
qed

lemma created_append: "created (xs @ ys) = created xs @ created ys"
  by (induction xs rule: created.induct) simp_all

text \<open>
  No call removes or reorders sources: whatever the calls, the collection afterwards is the
  earlier collection followed by one source for each \<open>createSource\<close> among them, in order.
\<close>

lemma run_sources:
  assumes "wf_listener (sb_listener this)"
  shows "\<exists>new. sb_sources (fst (run U calls (this, w))) = sb_sources this @ new
           \<and> map source_options new = created calls"
  using assms
proof (induction calls arbitrary: this w)
  case Nil
  then show ?case by (simp add: run_def)
next
  case (Cons c calls)
  obtain this1 w1 where p: "perform U c (this, w) = (this1, w1)"
    by (cases "perform U c (this, w)")
  obtain new1 where n1: "sb_sources this1 = sb_sources this @ new1"
    "map source_options new1 = created [c]" and wf1: "wf_listener (sb_listener this1)"
    using perform_sources [OF Cons.prems, of U c w] by (auto simp: p)
  obtain new2 where n2: "sb_sources (fst (run U calls (this1, w1))) = sb_sources this1 @ new2"
    "map source_options new2 = created calls"
    using Cons.IH [OF wf1] by blast
  have "created (c # calls) = created [c] @ created calls"
    using created_append [of "[c]" calls] by simp
  then have "sb_sources (fst (run U (c # calls) (this, w))) = sb_sources this @ (new1 @ new2)
      \<and> map source_options (new1 @ new2) = created (c # calls)"
    using n1 n2 by (simp add: run_def p)
  then show ?case by blast
qed

section \<open>The listener pass of the scene\<close>

text \<open>
  Claim C1. For every well-formed scene and every coordinates \<open>(x, y, z)\<close>,
  \<open>Songbird.setListenerPosition\<close> first stores \<open>x\<close>, \<open>y\<close>, \<open>z\<close> into the listener's
  position (the array holds them in single precision), then calls
  \<open>Room.setListenerPosition\<close> with the same \<open>(x, y, z)\<close>, and only then calls \<open>_update()\<close>
  on the sources: one call for each element of the collection, in the order of the
  collection, which is the order of creation. Nothing else happens and nothing else changes,
  and the update of each source of the collection occurs exactly once.
\<close>

theorem setListenerPosition_pass:
  assumes "wf_scene (this, w)"
  shows "setListenerPosition x y z (this, w) =
     (this\<lparr>sb_listener := (sb_listener this)\<lparr>position := [fround x, fround y, fround z]\<rparr>\<rparr>,
      w\<lparr>trace := trace w
           @ [PositionStore 0 (fround x), PositionStore 1 (fround y), PositionStore 2 (fround z),
              RoomSetListenerPosition x y z]
           @ map (\<lambda>s. SourceUpdate (source_ref s)) (sb_sources this)\<rparr>)
   \<and> (\<forall>s \<in> set (sb_sources this).
        count_list (drop (length (trace w)) (trace (snd (setListenerPosition x y z (this, w)))))
          (SourceUpdate (source_ref s)) = 1)"
proof -
  have l: "length (position (sb_listener this)) = 3"
    and d: "distinct (map source_ref (sb_sources this))"
    using assms by (simp_all add: wf_scene_def wf_listener_def)
  note eq = setListenerPosition_eq [OF l, of x y z w]
  show ?thesis
    by (simp add: eq count_updates [OF d])
qed

theorem setListenerPosition_pass_witness:
  "wf_scene
     (\<lparr>sb_ambisonicOrder = Some (Fin 1),
       sb_sources = [\<lparr>source_ref = 0, source_options = ''siren''\<rparr>,
                     \<lparr>source_ref = 1, source_options = ''siren''\<rparr>],
       sb_listener = \<lparr>position = [Fin 0, Fin 0, Fin 0], tempMatrix4 = Float32Array 16\<rparr>\<rparr>,
      world0\<lparr>next_ref := 2\<rparr>)
   \<and> trace (snd (setListenerPosition (Fin 1) (Fin 0) (Fin (- 1))
      (\<lparr>sb_ambisonicOrder = Some (Fin 1),
        sb_sources = [\<lparr>source_ref = 0, source_options = ''siren''\<rparr>,
                      \<lparr>source_ref = 1, source_options = ''siren''\<rparr>],
        sb_listener = \<lparr>position = [Fin 0, Fin 0, Fin 0], tempMatrix4 = Float32Array 16\<rparr>\<rparr>,
       world0\<lparr>next_ref := 2\<rparr>)))
     = [PositionStore 0 (Fin 1), PositionStore 1 (Fin 0), PositionStore 2 (Fin (- 1)),
        RoomSetListenerPosition (Fin 1) (Fin 0) (Fin (- 1)), SourceUpdate 0, SourceUpdate 1]"
proof -
  let ?S = "\<lparr>sb_ambisonicOrder = Some (Fin 1),
       sb_sources = [\<lparr>source_ref = 0, source_options = ''siren''\<rparr>,
                     \<lparr>source_ref = 1, source_options = ''siren''\<rparr>],
       sb_listener = \<lparr>position = [Fin 0, Fin 0, Fin 0], tempMatrix4 = Float32Array 16\<rparr>\<rparr>"
  let ?w = "world0\<lparr>next_ref := 2\<rparr> :: string world"
  have wf: "wf_scene (?S, ?w)"
    by (simp add: wf_scene_def wf_listener_def world0_def)
  from setListenerPosition_pass [OF wf, of "Fin 1" "Fin 0" "Fin (- 1)"] wf
  show ?thesis by (simp add: world0_def)
qed

text \<open>
  Claim C5. For every scene and every 4x4 world matrix, \<open>Songbird.setListenerFromMatrix\<close>
  delegates to \<open>Listener.setFromMatrix\<close> and then performs the full pass of
  \<open>setListenerPosition\<close> with the position just extracted: the position read back from the
  listener is forwarded to the room, then every source of the collection is updated, in
  collection order; the listener's position stays as extracted.
\<close>

theorem setListenerFromMatrix_pass:
  assumes "wf_listener (sb_listener this)"
  shows "position (fst (setFromMatrix matrix (sb_listener this, w)))
           = map fround [js_at (elements matrix) 12, js_at (elements matrix) 13,
                         js_at (elements matrix) 14]
       \<and> setListenerFromMatrix matrix (this, w)
           = setListenerPosition (fround (js_at (elements matrix) 12))
               (fround (js_at (elements matrix) 13)) (fround (js_at (elements matrix) 14))
               (this\<lparr>sb_listener := fst (setFromMatrix matrix (sb_listener this, w))\<rparr>,
                snd (setFromMatrix matrix (sb_listener this, w)))
       \<and> trace (snd (setListenerFromMatrix matrix (this, w)))
           = trace (snd (setFromMatrix matrix (sb_listener this, w)))
             @ [PositionStore 0 (fround (js_at (elements matrix) 12)),
                PositionStore 1 (fround (js_at (elements matrix) 13)),
                PositionStore 2 (fround (js_at (elements matrix) 14)),
                RoomSetListenerPosition (fround (js_at (elements matrix) 12))
                  (fround (js_at (elements matrix) 13)) (fround (js_at (elements matrix) 14))]
             @ map (\<lambda>s. SourceUpdate (source_ref s)) (sb_sources this)
       \<and> fst (setListenerFromMatrix matrix (this, w))
           = this\<lparr>sb_listener := fst (setFromMatrix matrix (sb_listener this, w))\<rparr>"
  by (simp add: setListenerFromMatrix_def setFromMatrix_eq [OF assms] Let_def
      setListenerPosition_eq)

theorem setListenerFromMatrix_pass_witness:
  "wf_listener (sb_listener
     \<lparr>sb_ambisonicOrder = Some (Fin 1),
      sb_sources = [\<lparr>source_ref = 0, source_options = ''bell''\<rparr>,
                    \<lparr>source_ref = 1, source_options = ''siren''\<rparr>],
      sb_listener = \<lparr>position = Float32Array 3, tempMatrix4 = Float32Array 16\<rparr>\<rparr>)
   \<and> trace (snd (setListenerFromMatrix
        \<lparr>elements = [Fin 1, Fin 0, Fin 0, Fin 0,  Fin 0, Fin 1, Fin 0, Fin 0,
                     Fin 0, Fin 0, Fin 1, Fin 0,  Fin 1, Fin 0, Fin (- 1), Fin 1]\<rparr>
        (\<lparr>sb_ambisonicOrder = Some (Fin 1),
          sb_sources = [\<lparr>source_ref = 0, source_options = ''bell''\<rparr>,
                        \<lparr>source_ref = 1, source_options = ''siren''\<rparr>],
          sb_listener = \<lparr>position = Float32Array 3, tempMatrix4 = Float32Array 16\<rparr>\<rparr>,
         world0)))
     = [SetRotationMatrix [Fin 1, Fin 0, Fin 0, Fin 0, Fin 1, Fin 0, Fin 0, Fin 0, Fin 1,
                           Fin 0, Fin 0, Fin 0, Fin 0, Fin 0, Fin 0, Fin 0],
        PositionStore 0 (Fin 1), PositionStore 1 (Fin 0), PositionStore 2 (Fin (- 1)),
        PositionStore 0 (Fin 1), PositionStore 1 (Fin 0), PositionStore 2 (Fin (- 1)),
        RoomSetListenerPosition (Fin 1) (Fin 0) (Fin (- 1)),
        SourceUpdate 0, SourceUpdate 1]"
proof -
  let ?S = "\<lparr>sb_ambisonicOrder = Some (Fin 1),
      sb_sources = [\<lparr>source_ref = 0, source_options = ''bell''\<rparr>,
                    \<lparr>source_ref = 1, source_options = ''siren''\<rparr>],
      sb_listener = \<lparr>position = Float32Array 3, tempMatrix4 = Float32Array 16\<rparr>\<rparr>"
  let ?M = "\<lparr>elements = [Fin 1, Fin 0, Fin 0, Fin 0,  Fin 0, Fin 1, Fin 0, Fin 0,
                     Fin 0, Fin 0, Fin 1, Fin 0,  Fin 1, Fin 0, Fin (- 1), Fin 1]\<rparr>"
  have wf: "wf_listener (sb_listener ?S)" by (simp add: wf_listener_def)
  have wf': "wf_listener \<lparr>position = Float32Array 3, tempMatrix4 = Float32Array 16\<rparr>"
    by (simp add: wf_listener_def)
  from setListenerFromMatrix_pass [OF wf, of ?M "world0 :: string world"] wf
  show ?thesis
    by (simp add: setFromMatrix_eq [OF wf'] setListenerPosition_eq Let_def world0_def
        drop_9_Float32Array_16)
qed

section \<open>The orientation of the listener\<close>

text \<open>
  Claim C2. For every forward and up vector, \<open>Listener.setOrientation\<close> computes \<open>right\<close> as
  \<open>Utils.crossProduct(forward, up)\<close> and pushes to the renderer one matrix, its 16-element
  buffer, in which elements 0-2 hold \<open>right\<close>, elements 3-5 hold \<open>up\<close> and elements 6-8 hold
  \<open>forward\<close> (each in single precision, as the buffer is a \<open>Float32Array\<close>); the other
  elements of the buffer and the position are untouched. With the cross product of the spec
  for \<open>Utils.crossProduct\<close>, elements 0-2 are the components of forward \<times> up.
\<close>

theorem setOrientation_matrix:
  assumes "wf_listener this"
  shows "tempMatrix4 (fst (setOrientation U fx fy fz ux uy uz (this, w)))
           = map fround [js_at (crossProduct U [fx, fy, fz] [ux, uy, uz]) 0,
                         js_at (crossProduct U [fx, fy, fz] [ux, uy, uz]) 1,
                         js_at (crossProduct U [fx, fy, fz] [ux, uy, uz]) 2,
                         ux, uy, uz, fx, fy, fz]
             @ drop 9 (tempMatrix4 this)
       \<and> trace (snd (setOrientation U fx fy fz ux uy uz (this, w)))
           = trace w @ [SetRotationMatrix
                          (tempMatrix4 (fst (setOrientation U fx fy fz ux uy uz (this, w))))]
       \<and> position (fst (setOrientation U fx fy fz ux uy uz (this, w))) = position this
       \<and> (crossProduct U = crossProduct_spec \<longrightarrow>
            take 3 (tempMatrix4 (fst (setOrientation U fx fy fz ux uy uz (this, w))))
              = map fround [js_sub (js_mul fy uz) (js_mul fz uy),
                            js_sub (js_mul fz ux) (js_mul fx uz),
                            js_sub (js_mul fx uy) (js_mul fy ux)])"
proof -
  have l: "length (tempMatrix4 this) = 16"
    using assms by (simp add: wf_listener_def)
  show ?thesis
    by (simp add: setOrientation_eq [OF l] Let_def crossProduct_spec_def)
qed

theorem setOrientation_matrix_witness:
  "wf_listener \<lparr>position = Float32Array 3, tempMatrix4 = Float32Array 16\<rparr>
   \<and> crossProduct_spec [Fin 0, Fin 0, Fin (- 1)] [Fin 0, Fin 1, Fin 0] = [Fin 1, Fin 0, Fin 0]
   \<and> trace (snd (setOrientation (spec_env [Fin 0, Fin 0, Fin (- 1)] [Fin 0, Fin 1, Fin 0])
        (Fin 0) (Fin 0) (Fin (- 1)) (Fin 0) (Fin 1) (Fin 0)
        (\<lparr>position = Float32Array 3, tempMatrix4 = Float32Array 16\<rparr>, world0 :: unit world)))
     = [SetRotationMatrix
          [Fin 1, Fin 0, Fin 0, Fin 0, Fin 1, Fin 0, Fin 0, Fin 0, Fin (- 1),
           Fin 0, Fin 0, Fin 0, Fin 0, Fin 0, Fin 0, Fin 0]]"
proof -
  let ?l = "\<lparr>position = Float32Array 3, tempMatrix4 = Float32Array 16\<rparr>"
  have wf: "wf_listener ?l" by (simp add: wf_listener_def)
  from setOrientation_matrix [OF wf, of "spec_env [Fin 0, Fin 0, Fin (- 1)] [Fin 0, Fin 1, Fin 0]"
      "Fin 0" "Fin 0" "Fin (- 1)" "Fin 0" "Fin 1" "Fin 0" "world0 :: unit world"] wf
  show ?thesis
    by (simp add: crossProduct_spec_examples world0_def drop_9_Float32Array_16)
qed

text \<open>
  Claim C3, as the spec states it: for a parallel forward/up pair \<open>setOrientation\<close> validates
  the pair and does not push a degenerate matrix. The code does not: with forward = up =
  \<open>(0, 1, 0)\<close> the cross product is the zero vector, and the matrix with a zero first row and
  two equal rows is pushed to the renderer.
\<close>

theorem setOrientation_parallel_counterexample:
  "crossProduct_spec [Fin 0, Fin 1, Fin 0] [Fin 0, Fin 1, Fin 0] = [Fin 0, Fin 0, Fin 0]
   \<and> trace (snd (setOrientation (spec_env [Fin 0, Fin 0, Fin 1] [Fin 0, Fin 1, Fin 0])
        (Fin 0) (Fin 1) (Fin 0) (Fin 0) (Fin 1) (Fin 0)
        (\<lparr>position = Float32Array 3, tempMatrix4 = Float32Array 16\<rparr>, world0 :: unit world)))
     = [SetRotationMatrix
          [Fin 0, Fin 0, Fin 0, Fin 0, Fin 1, Fin 0, Fin 0, Fin 1, Fin 0,
           Fin 0, Fin 0, Fin 0, Fin 0, Fin 0, Fin 0, Fin 0]]"
  by (simp add: setOrientation_eq Let_def crossProduct_spec_examples world0_def
      drop_9_Float32Array_16)

text \<open>
  Claim C3, amended: \<open>Listener.setOrientation\<close> performs no validation. For every forward/up
  pair, parallel or not, it pushes exactly one matrix to the renderer, and that matrix holds
  the given up vector in elements 3-5 and the given forward vector in elements 6-8 (in single
  precision); nothing is rejected or ignored.
\<close>

theorem setOrientation_no_validation:
  assumes "wf_listener this"
  shows "\<exists>r0 r1 r2 rest.
           trace (snd (setOrientation U fx fy fz ux uy uz (this, w)))
             = trace w @ [SetRotationMatrix ([r0, r1, r2, fround ux, fround uy, fround uz,
                                              fround fx, fround fy, fround fz] @ rest)]"
proof -
  have l: "length (tempMatrix4 this) = 16"
    using assms by (simp add: wf_listener_def)
  show ?thesis
    by (simp add: setOrientation_eq [OF l] Let_def)
qed

theorem setOrientation_no_validation_witness:
  "wf_listener \<lparr>position = Float32Array 3, tempMatrix4 = Float32Array 16\<rparr>
   \<and> (\<exists>r0 r1 r2 rest.
         trace (snd (setOrientation (spec_env [Fin 0, Fin 0, Fin 1] [Fin 0, Fin 1, Fin 0])
           (Fin 0) (Fin 1) (Fin 0) (Fin 0) (Fin 1) (Fin 0)
           (\<lparr>position = Float32Array 3, tempMatrix4 = Float32Array 16\<rparr>, world0 :: unit world)))
         = [SetRotationMatrix ([r0, r1, r2, Fin 0, Fin 1, Fin 0, Fin 0, Fin 1, Fin 0] @ rest)])"
proof -
  let ?l = "\<lparr>position = Float32Array 3, tempMatrix4 = Float32Array 16\<rparr>"
  have wf: "wf_listener ?l" by (simp add: wf_listener_def)
  from setOrientation_no_validation [OF wf,
      of "spec_env [Fin 0, Fin 0, Fin 1] [Fin 0, Fin 1, Fin 0]"
         "Fin 0" "Fin 1" "Fin 0" "Fin 0" "Fin 1" "Fin 0" "world0 :: unit world"] wf
  show ?thesis by (simp add: world0_def)
qed

subsection \<open>The matrix pushed is never the identity\<close>

text \<open>
  When the up and forward rows stored in single precision are those of the identity, the
  first component of the cross product of the spec is not stored as 1, whatever the numbers
  are: up is near \<open>(0, 1, 0)\<close> and forward near \<open>(0, 0, 1)\<close>, so that the component
  \<open>forward[1] * up[2] - forward[2] * up[1]\<close> is negative.
\<close>

lemma crossProduct_spec_right_row:
  assumes "fround u0 = Fin 0" "fround u1 = Fin 1" "fround u2 = Fin 0"
    and "fround f0 = Fin 0" "fround f1 = Fin 0" "fround f2 = Fin 1"
  shows "fround (js_at (crossProduct_spec [f0, f1, f2] [u0, u1, u2]) 0) \<noteq> Fin 1"
proof -
  obtain a where va: "f1 = Fin a" using assms(5) fround_Fin_D by blast
  obtain b where vb: "u2 = Fin b" using assms(3) fround_Fin_D by blast
  obtain c where vc: "f2 = Fin c" using assms(6) fround_Fin_D by blast
  obtain d where vd: "u1 = Fin d" using assms(2) fround_Fin_D by blast
  note v = va vb vc vd
  have a: "\<bar>a\<bar> < 2 powi (- 126)" and b: "\<bar>b\<bar> < 2 powi (- 126)"
    and c: "1 / 2 < c" and d: "1 / 2 < d"
    using assms v by (auto dest: fround_eq_0_D fround_eq_1_D)
  obtain t where t: "js_mul (Fin a) (Fin b) = Fin t" "\<bar>t\<bar> \<le> 2 powi (- 252)"
    using js_mul_small [OF a b] by blast
  have r: "js_at (crossProduct_spec [f0, f1, f2] [u0, u1, u2]) 0
             = js_sub (Fin t) (js_mul (Fin c) (Fin d))"
    by (simp add: crossProduct_spec_def v t)
  from js_mul_big [OF c d] show ?thesis
  proof
    assume "js_mul (Fin c) (Fin d) = PInf"
    then show ?thesis by (simp add: r js_sub_def)
  next
    assume "\<exists>s. js_mul (Fin c) (Fin d) = Fin s \<and> 1 / 4 \<le> s"
    then obtain s where s: "js_mul (Fin c) (Fin d) = Fin s" "1 / 4 \<le> s" by blast
    from js_sub_negative [OF t(2) s(2)] show ?thesis
      by (auto simp: r s fround_nonpos_not_1)
  qed
qed

text \<open>
  So, with the cross product of the spec, no forward and up vector whatsoever make
  \<open>setOrientation\<close> push a matrix whose 3x3 part is the identity.
\<close>

lemma setOrientation_never_identity:
  assumes "wf_listener this" and "crossProduct U = crossProduct_spec"
  shows "take 9 (tempMatrix4 (fst (setOrientation U fx fy fz ux uy uz (this, w))))
           \<noteq> [Fin 1, Fin 0, Fin 0, Fin 0, Fin 1, Fin 0, Fin 0, Fin 0, Fin 1]"
proof
  have l: "length (tempMatrix4 this) = 16"
    using assms by (simp add: wf_listener_def)
  assume "take 9 (tempMatrix4 (fst (setOrientation U fx fy fz ux uy uz (this, w))))
           = [Fin 1, Fin 0, Fin 0, Fin 0, Fin 1, Fin 0, Fin 0, Fin 0, Fin 1]"
  then have "fround (js_at (crossProduct_spec [fx, fy, fz] [ux, uy, uz]) 0) = Fin 1"
    and "fround ux = Fin 0" "fround uy = Fin 1" "fround uz = Fin 0"
    and "fround fx = Fin 0" "fround fy = Fin 0" "fround fz = Fin 1"
    by (simp_all add: setOrientation_eq [OF l] Let_def assms(2))
  then show False using crossProduct_spec_right_row by blast
qed





section \<open>The listener's transform from a world matrix\<close>

text \<open>
  Claim C6, as the spec states it: after \<open>Listener.setFromMatrix(matrix)\<close> the stored position
  equals elements 12, 13, 14 of the matrix exactly. It does not for every matrix: the position
  is a \<open>Float32Array\<close>. A translation of 0.1 (the double 3602879701896397 / 2^55) is stored
  as 13421773 / 2^27, and one of 16777217 (2^24 + 1) as 16777216.
\<close>

theorem setFromMatrix_position_counterexample:
  "position (fst (setFromMatrix
      \<lparr>elements = [Fin 1, Fin 0, Fin 0, Fin 0,  Fin 0, Fin 1, Fin 0, Fin 0,
                   Fin 0, Fin 0, Fin 1, Fin 0,
                   Fin (3602879701896397 / 36028797018963968), Fin 0, Fin 16777217, Fin 1]\<rparr>
      (\<lparr>position = Float32Array 3, tempMatrix4 = Float32Array 16\<rparr>, world0 :: unit world)))
    = [Fin (13421773 / 134217728), Fin 0, Fin 16777216]
   \<and> [Fin (13421773 / 134217728), Fin 0, Fin 16777216]
       \<noteq> [Fin (3602879701896397 / 36028797018963968), Fin 0, Fin 16777217]"
  by (simp add: setFromMatrix_eq wf_listener_def Let_def fround_16777217 fround_tenth)

text \<open>
  Claim C6, amended: for every 4x4 world matrix, after \<open>Listener.setFromMatrix(matrix)\<close> the
  stored position equals elements 12, 13, 14 of the matrix rounded to single precision,
  component for component; it equals them exactly whenever the three elements are
  single-precision values (as they are when the matrix keeps its elements in a
  \<open>Float32Array\<close>).
\<close>

theorem setFromMatrix_position:
  assumes "wf_listener this"
  shows "position (fst (setFromMatrix matrix4 (this, w)))
           = map fround [js_at (elements matrix4) 12, js_at (elements matrix4) 13,
                         js_at (elements matrix4) 14]
       \<and> (is_float32 (js_at (elements matrix4) 12) \<and> is_float32 (js_at (elements matrix4) 13)
            \<and> is_float32 (js_at (elements matrix4) 14)
          \<longrightarrow> position (fst (setFromMatrix matrix4 (this, w)))
                = [js_at (elements matrix4) 12, js_at (elements matrix4) 13,
                   js_at (elements matrix4) 14])"
  by (simp add: setFromMatrix_eq [OF assms] Let_def is_float32_def)

theorem setFromMatrix_position_witness:
  "wf_listener \<lparr>position = Float32Array 3, tempMatrix4 = Float32Array 16\<rparr>
   \<and> is_float32 (Fin 1) \<and> is_float32 (Fin 0) \<and> is_float32 (Fin (- 1))
   \<and> position (fst (setFromMatrix
        \<lparr>elements = [Fin 1, Fin 0, Fin 0, Fin 0,  Fin 0, Fin 1, Fin 0, Fin 0,
                     Fin 0, Fin 0, Fin 1, Fin 0,  Fin 1, Fin 0, Fin (- 1), Fin 1]\<rparr>
        (\<lparr>position = Float32Array 3, tempMatrix4 = Float32Array 16\<rparr>, world0 :: unit world)))
     = [Fin 1, Fin 0, Fin (- 1)]"
proof -
  let ?l = "\<lparr>position = Float32Array 3, tempMatrix4 = Float32Array 16\<rparr>"
  have wf: "wf_listener ?l" by (simp add: wf_listener_def)
  have f: "is_float32 (Fin 1)" "is_float32 (Fin 0)" "is_float32 (Fin (- 1))"
    by (simp_all add: is_float32_def)
  from setFromMatrix_position [OF wf,
      of "\<lparr>elements = [Fin 1, Fin 0, Fin 0, Fin 0,  Fin 0, Fin 1, Fin 0, Fin 0,
                     Fin 0, Fin 0, Fin 1, Fin 0,  Fin 1, Fin 0, Fin (- 1), Fin 1]\<rparr>"
         "world0 :: unit world"] wf f
  show ?thesis by simp
qed

section \<open>The constructor of the listener\<close>

text \<open>
  Claim C4 says that a \<open>Listener\<close> constructed with an ambisonic order outside \<open>{1, 2, 3}\<close>
  reports an error at construction. The code does not: for order 4 the last branch of the
  selection, which holds only the comment "TODO(bitllama): Throw an error?!", leaves the
  list of HRIR files at its initial value, one empty string; the renderer is created with
  it and the constructor completes.
\<close>

theorem Listener_order_4_completes:
  "fst (Listener (spec_env [Fin 0, Fin 0, Fin (- 1)] [Fin 0, Fin 1, Fin 0])
         (Some \<lparr>opt_ambisonicOrder = Some (Fin 4), opt_position = None,
                opt_forward = None, opt_up = None\<rparr>) (world0 :: unit world))
     = Inr (\<lparr>position = [Fin 0, Fin 0, Fin 0],
             tempMatrix4 = [Fin 1, Fin 0, Fin 0, Fin 0, Fin 1, Fin 0, Fin 0, Fin 0, Fin (- 1),
                            Fin 0, Fin 0, Fin 0, Fin 0, Fin 0, Fin 0, Fin 0]\<rparr>,
            \<lparr>opt_ambisonicOrder = Some (Fin 4), opt_position = Some [Fin 0, Fin 0, Fin 0],
             opt_forward = Some [Fin 0, Fin 0, Fin (- 1)], opt_up = Some [Fin 0, Fin 1, Fin 0]\<rparr>)
   \<and> trace (snd (Listener (spec_env [Fin 0, Fin 0, Fin (- 1)] [Fin 0, Fin 1, Fin 0])
         (Some \<lparr>opt_ambisonicOrder = Some (Fin 4), opt_position = None,
                opt_forward = None, opt_up = None\<rparr>) (world0 :: unit world)))
     = [CreateHOARenderer (Some (Fin 4)) [''''],
        CreateGain ListenerInput, CreateGain ListenerAmbisonicOutput, CreateGain ListenerOutput,
        RendererInitialize,
        SetRotationMatrix [Fin 1, Fin 0, Fin 0, Fin 0, Fin 1, Fin 0, Fin 0, Fin 0, Fin (- 1),
                           Fin 0, Fin 0, Fin 0, Fin 0, Fin 0, Fin 0, Fin 0]]"
  by (simp add: Listener_eq Let_def crossProduct_spec_examples HRIR_urls_def world0_def
      eval_nat_numeral)

text \<open>The same holds of every order that is not 1, 2 or 3.\<close>

lemma Listener_unsupported_order_completes:
  assumes "opt_ambisonicOrder obj = Some v" and "v \<noteq> Fin 1" "v \<noteq> Fin 2" "v \<noteq> Fin 3"
  shows "(\<exists>l options'. fst (Listener U (Some obj) w) = Inr (l, options'))
       \<and> CreateHOARenderer (Some v) [''''] \<in> set (trace (snd (Listener U (Some obj) w)))"
  using assms by (simp add: Listener_eq Let_def HRIR_urls_def)

text \<open>
  Claim C10. Constructing a \<open>Listener\<close> directly without an ambisonic order (no options
  object at all, or one whose \<open>ambisonicOrder\<close> is undefined) does not apply the documented
  default: the default expression names \<open>Encoder\<close>, which listener.js does not bind, so the
  constructor throws a ReferenceError before it has done anything.
\<close>

theorem Listener_undefined_order:
  assumes "options = None \<or> (\<exists>obj. options = Some obj \<and> opt_ambisonicOrder obj = None)"
  shows "Listener U options w = (Inl (ReferenceError ''Encoder''), w)"
  using assms
  by (auto simp: Listener_def Listener_defaults_def default_from_def resolve_def listener_js_def)

theorem Listener_undefined_order_witness:
  "(Some \<lparr>opt_ambisonicOrder = None, opt_position = Some [Fin 0, Fin 0, Fin 0],
          opt_forward = Some [Fin 0, Fin 0, Fin 1], opt_up = Some [Fin 0, Fin 1, Fin 0]\<rparr> = None
    \<or> (\<exists>obj. Some \<lparr>opt_ambisonicOrder = None, opt_position = Some [Fin 0, Fin 0, Fin 0],
                    opt_forward = Some [Fin 0, Fin 0, Fin 1], opt_up = Some [Fin 0, Fin 1, Fin 0]\<rparr>
                = Some obj \<and> opt_ambisonicOrder obj = None))
   \<and> fst (Listener (spec_env [Fin 0, Fin 0, Fin 1] [Fin 0, Fin 1, Fin 0])
        (Some \<lparr>opt_ambisonicOrder = None, opt_position = Some [Fin 0, Fin 0, Fin 0],
               opt_forward = Some [Fin 0, Fin 0, Fin 1], opt_up = Some [Fin 0, Fin 1, Fin 0]\<rparr>)
        (world0 :: unit world))
     = Inl (ReferenceError ''Encoder'')"
  by (simp add: Listener_undefined_order)

section \<open>The constructor of the scene and its sources\<close>

text \<open>
  Claim C9. For every options object passed by the caller, the \<open>Songbird\<close> constructor
  updates that same object in place: after the construction the object holds the default in
  every field that was missing and is otherwise as it was, and no other object has changed.
  So an object with a missing field is observably changed; and when the object is passed to a
  second construction it carries the defaults of the first: the second construction changes
  nothing in it and builds the same scene.
\<close>

theorem Songbird_fills_options:
  "heap (snd (Songbird U (Some r) w)) = (heap w)(r := options_with_defaults U (heap w r))
   \<and> (missing_field (heap w r) \<longrightarrow> heap (snd (Songbird U (Some r) w)) r \<noteq> heap w r)
   \<and> heap (snd (Songbird U (Some r) (snd (Songbird U (Some r) w))))
       = heap (snd (Songbird U (Some r) w))
   \<and> fst (Songbird U (Some r) (snd (Songbird U (Some r) w))) = fst (Songbird U (Some r) w)"
  by (simp add: Songbird_eq Let_def options_with_defaults_changes)
     (simp add: options_with_defaults_def)

theorem Songbird_fills_options_witness:
  "missing_field (new_Object\<lparr>ambisonicOrder := Some (Fin 2)\<rparr>)
   \<and> heap (snd (Songbird (spec_env [Fin 0, Fin 0, Fin (- 1)] [Fin 0, Fin 1, Fin 0]) (Some 5)
          (world0\<lparr>heap := (\<lambda>r. new_Object\<lparr>ambisonicOrder := Some (Fin 2)\<rparr>)\<rparr> :: unit world))) 5
     = \<lparr>ambisonicOrder = Some (Fin 2), listenerPosition = Some [Fin 0, Fin 0, Fin 0],
        listenerForward = Some [Fin 0, Fin 0, Fin (- 1)], listenerUp = Some [Fin 0, Fin 1, Fin 0],
        dimensions = Some [(''width'', Fin 0), (''height'', Fin 0), (''depth'', Fin 0)],
        materials = Some [(''left'', ''transparent''), (''right'', ''transparent''),
                          (''front'', ''transparent''), (''back'', ''transparent''),
                          (''down'', ''transparent''), (''up'', ''transparent'')],
        speedOfSound = Some (Fin 343)\<rparr>
   \<and> heap (snd (Songbird (spec_env [Fin 0, Fin 0, Fin (- 1)] [Fin 0, Fin 1, Fin 0]) (Some 5)
          (world0\<lparr>heap := (\<lambda>r. new_Object\<lparr>ambisonicOrder := Some (Fin 2)\<rparr>)\<rparr> :: unit world))) 5
     \<noteq> new_Object\<lparr>ambisonicOrder := Some (Fin 2)\<rparr>"
proof -
  let ?U = "spec_env [Fin 0, Fin 0, Fin (- 1)] [Fin 0, Fin 1, Fin 0]"
  let ?w = "world0\<lparr>heap := (\<lambda>r. new_Object\<lparr>ambisonicOrder := Some (Fin 2)\<rparr>)\<rparr> :: unit world"
  have m: "missing_field (heap ?w 5)"
    by (simp add: missing_field_def new_Object_def)
  have a: "Object_assign [] [(''width'', Fin 0), (''height'', Fin 0), (''depth'', Fin 0)]
             = [(''width'', Fin 0), (''height'', Fin 0), (''depth'', Fin 0)]"
    by (rule Object_assign_empty) simp
  have b: "Object_assign [] [(''left'', ''transparent''), (''right'', ''transparent''),
                          (''front'', ''transparent''), (''back'', ''transparent''),
                          (''down'', ''transparent''), (''up'', ''transparent'')]
             = [(''left'', ''transparent''), (''right'', ''transparent''),
                          (''front'', ''transparent''), (''back'', ''transparent''),
                          (''down'', ''transparent''), (''up'', ''transparent'')]"
    by (rule Object_assign_empty) simp
  from Songbird_fills_options [of ?U 5 ?w] m
  show ?thesis
    by (simp add: options_with_defaults_def spec_env_def new_Object_def world0_def a b
        missing_field_def)
qed

text \<open>
  Claim C7. For every sequence of \<open>createSource\<close> calls on a scene, each call appends the
  new source to the end of the scene's collection and returns it: after the calls the
  collection is the earlier collection followed by the sources returned, in the order of the
  calls, one for each call with the options of that call (equal options give two sources),
  each with an identity of its own; nothing is removed, and the listener is untouched.
\<close>

theorem createSources_collection:
  assumes "createSources optionss (this, w) = (handles, this', w')"
  shows "sb_sources this' = sb_sources this @ handles
       \<and> map source_options handles = optionss
       \<and> map source_ref handles = [next_ref w ..< next_ref w + length optionss]
       \<and> next_ref w' = next_ref w + length optionss
       \<and> trace w' = trace w @ map (\<lambda>s. NewSource (source_ref s) (source_options s)) handles
       \<and> sb_listener this' = sb_listener this"
  using assms
proof (induction optionss arbitrary: this w handles this' w')
  case Nil
  then show ?case by simp
next
  case (Cons options rest)
  let ?source = "\<lparr>source_ref = next_ref w, source_options = options\<rparr>"
  let ?this = "this\<lparr>sb_sources := sb_sources this @ [?source]\<rparr>"
  let ?w = "w\<lparr>next_ref := Suc (next_ref w), trace := trace w @ [NewSource (next_ref w) options]\<rparr>"
  obtain sources where rest: "createSources rest (?this, ?w) = (sources, this', w')"
    and handles: "handles = ?source # sources"
    using Cons.prems by (auto simp: createSource_eq Let_def split: prod.splits)
  have u: "[next_ref w ..< next_ref w + length (options # rest)]
             = next_ref w # [next_ref ?w ..< next_ref ?w + length rest]"
    by (simp add: upt_conv_Cons del: upt_Suc)
  from Cons.IH [OF rest] show ?case
    unfolding u by (simp add: handles del: upt_Suc)
qed

theorem createSources_collection_witness:
  "createSources [''siren'', ''siren'']
     (\<lparr>sb_ambisonicOrder = Some (Fin 1),
       sb_sources = [\<lparr>source_ref = 0, source_options = ''bell''\<rparr>],
       sb_listener = \<lparr>position = Float32Array 3, tempMatrix4 = Float32Array 16\<rparr>\<rparr>,
      \<lparr>trace = [], next_ref = 1, heap = (\<lambda>r. new_Object)\<rparr>)
    = ([\<lparr>source_ref = 1, source_options = ''siren''\<rparr>,
        \<lparr>source_ref = 2, source_options = ''siren''\<rparr>],
       \<lparr>sb_ambisonicOrder = Some (Fin 1),
        sb_sources = [\<lparr>source_ref = 0, source_options = ''bell''\<rparr>,
                      \<lparr>source_ref = 1, source_options = ''siren''\<rparr>,
                      \<lparr>source_ref = 2, source_options = ''siren''\<rparr>],
        sb_listener = \<lparr>position = Float32Array 3, tempMatrix4 = Float32Array 16\<rparr>\<rparr>,
       \<lparr>trace = [NewSource 1 ''siren'', NewSource 2 ''siren''], next_ref = 3,
        heap = (\<lambda>r. new_Object)\<rparr>)
   \<and> sb_sources \<lparr>sb_ambisonicOrder = Some (Fin 1),
        sb_sources = [\<lparr>source_ref = 0, source_options = ''bell''\<rparr>,
                      \<lparr>source_ref = 1, source_options = ''siren''\<rparr>,
                      \<lparr>source_ref = 2, source_options = ''siren''\<rparr>],
        sb_listener = \<lparr>position = Float32Array 3, tempMatrix4 = Float32Array 16\<rparr>\<rparr>
     = [\<lparr>source_ref = 0, source_options = ''bell''\<rparr>]
       @ [\<lparr>source_ref = 1, source_options = ''siren''\<rparr>,
          \<lparr>source_ref = 2, source_options = ''siren''\<rparr>]"
proof -
  have c: "createSources [''siren'', ''siren'']
     (\<lparr>sb_ambisonicOrder = Some (Fin 1),
       sb_sources = [\<lparr>source_ref = 0, source_options = ''bell''\<rparr>],
       sb_listener = \<lparr>position = Float32Array 3, tempMatrix4 = Float32Array 16\<rparr>\<rparr>,
      \<lparr>trace = [], next_ref = 1, heap = (\<lambda>r. new_Object)\<rparr>)
    = ([\<lparr>source_ref = 1, source_options = ''siren''\<rparr>,
        \<lparr>source_ref = 2, source_options = ''siren''\<rparr>],
       \<lparr>sb_ambisonicOrder = Some (Fin 1),
        sb_sources = [\<lparr>source_ref = 0, source_options = ''bell''\<rparr>,
                      \<lparr>source_ref = 1, source_options = ''siren''\<rparr>,
                      \<lparr>source_ref = 2, source_options = ''siren''\<rparr>],
        sb_listener = \<lparr>position = Float32Array 3, tempMatrix4 = Float32Array 16\<rparr>\<rparr>,
       \<lparr>trace = [NewSource 1 ''siren'', NewSource 2 ''siren''], next_ref = 3,
        heap = (\<lambda>r. new_Object)\<rparr>)"
    by (simp add: createSource_eq Let_def)
  from createSources_collection [OF c] c show ?thesis by simp
qed

end
